theory Spec2Isabelle
  imports Main
begin

section \<open>JavaScript values\<close>

text \<open>
  The module works on arbitrary JavaScript values (\<open>unknown\<close>). The embedding represents
  them as finite trees. A symbol is either registered in the global symbol registry under
  a key (\<open>Symbol.for(key)\<close>) or locally created (\<open>Symbol()\<close>). Finite numbers range over
  the integers: the module never computes with a number, it only tests it and hands it to
  the serialiser (fractions, negative zero and the rounding of an integer beyond \<open>2^53\<close> are
  outside the model). A string is a list of code units below 256. A function value is a constant function (it returns the value it carries,
  whatever its receiver and arguments) or one of the built-in methods, named by a string.
  Every object carries its own properties as an association list, in property order.
  Objects are compared structurally (deep equality); aliasing, cycles, getters, proxies,
  array holes and user-defined \<open>Symbol.iterator\<close> methods are outside the model.
\<close>

datatype sym = GlobalSym string | LocalSym nat

datatype jsnum = Finite int | NaN | PosInfinity | NegInfinity

datatype pkey = KStr string | KSym sym

datatype jsval =
    VUndefined
  | VNull
  | VBool bool
  | VNum jsnum
  | VStr string
  | VBigInt int
  | VSymbol sym
  | VFun jsval "(pkey \<times> jsval) list"
  | VNative string
  | VObj "(pkey \<times> jsval) list"
  | VArr "jsval list" "(pkey \<times> jsval) list"
  | VMap "(jsval \<times> jsval) list" "(pkey \<times> jsval) list"
  | VSet "jsval list" "(pkey \<times> jsval) list"
  | VDate "int option" "(pkey \<times> jsval) list"
  | VRegExp string string "(pkey \<times> jsval) list"

datatype jstype =
  TUndefined | TObject | TBoolean | TNumber | TString | TBigInt | TSymbol | TFunction

datatype error =
    TypeError
  | SyntaxError
  | RangeError
  | Error string

text \<open>\<open>Symbol.for\<close> and \<open>Symbol.keyFor\<close>.\<close>

definition Symbol_for :: "string \<Rightarrow> sym" where
  "Symbol_for k = GlobalSym k"

fun Symbol_keyFor :: "sym \<Rightarrow> string option" where
  "Symbol_keyFor (GlobalSym k) = Some k"
| "Symbol_keyFor (LocalSym n) = None"

fun typeof :: "jsval \<Rightarrow> jstype" where
  "typeof VUndefined = TUndefined"
| "typeof VNull = TObject"
| "typeof (VBool b) = TBoolean"
| "typeof (VNum n) = TNumber"
| "typeof (VStr s) = TString"
| "typeof (VBigInt i) = TBigInt"
| "typeof (VSymbol s) = TSymbol"
| "typeof (VFun r ps) = TFunction"
| "typeof (VNative f) = TFunction"
| "typeof (VObj ps) = TObject"
| "typeof (VArr xs ps) = TObject"
| "typeof (VMap es ps) = TObject"
| "typeof (VSet xs ps) = TObject"
| "typeof (VDate t ps) = TObject"
| "typeof (VRegExp s f ps) = TObject"

subsection \<open>Decimal numerals\<close>

text \<open>\<open>BigInt.prototype.toString\<close>, array indices and number literals are decimal.\<close>

definition digit_char :: "nat \<Rightarrow> char" where
  "digit_char d = ''0123456789'' ! d"

function dec_nat :: "nat \<Rightarrow> string" where
  "dec_nat n = (if n < 10 then [digit_char n] else dec_nat (n div 10) @ [digit_char (n mod 10)])"
  by pat_completeness auto
termination
  by (relation "measure id") auto

declare dec_nat.simps [simp del]

definition dec_int :: "int \<Rightarrow> string" where
  "dec_int i = (if i < 0 then CHR ''-'' # dec_nat (nat (- i)) else dec_nat (nat i))"

definition is_digit :: "char \<Rightarrow> bool" where
  "is_digit c = ((48::nat) \<le> of_char c \<and> of_char c \<le> (57::nat))"

definition digit_val :: "char \<Rightarrow> nat" where
  "digit_val c = of_char c - 48"

definition parse_dec :: "string \<Rightarrow> nat" where
  "parse_dec s = foldl (\<lambda>a c. 10 * a + digit_val c) 0 s"

text \<open>
  An array index is a canonical numeric string below \<open>2^32 - 1\<close>; such keys come first,
  in ascending order, among the own property keys of an ordinary object.
\<close>

definition array_index :: "string \<Rightarrow> nat option" where
  "array_index s =
     (if s \<noteq> [] \<and> list_all is_digit s \<and> (s = ''0'' \<or> hd s \<noteq> CHR ''0'')
         \<and> parse_dec s < 4294967295
      then Some (parse_dec s) else None)"

subsection \<open>Properties\<close>

fun own_props :: "jsval \<Rightarrow> (pkey \<times> jsval) list" where
  "own_props (VFun r ps) = ps"
| "own_props (VObj ps) = ps"
| "own_props (VArr xs ps) = ps"
| "own_props (VMap es ps) = ps"
| "own_props (VSet xs ps) = ps"
| "own_props (VDate t ps) = ps"
| "own_props (VRegExp s f ps) = ps"
| "own_props v = []"

text \<open>
  The own enumerable properties, in the order of \<open>Object.keys\<close> followed by
  \<open>Object.getOwnPropertySymbols\<close>: the elements of an array under their indices, then the
  string-keyed and the symbol-keyed properties.
\<close>

definition string_props :: "(pkey \<times> jsval) list \<Rightarrow> (string \<times> jsval) list" where
  "string_props ps = concat (map (\<lambda>(k, v). case k of KStr s \<Rightarrow> [(s, v)] | KSym y \<Rightarrow> []) ps)"

definition symbol_props :: "(pkey \<times> jsval) list \<Rightarrow> (sym \<times> jsval) list" where
  "symbol_props ps = concat (map (\<lambda>(k, v). case k of KStr s \<Rightarrow> [] | KSym y \<Rightarrow> [(y, v)]) ps)"

definition index_props :: "jsval list \<Rightarrow> (string \<times> jsval) list" where
  "index_props xs = map (\<lambda>(i, x). (dec_nat i, x)) (enumerate 0 xs)"

fun Object_keys :: "jsval \<Rightarrow> string list" where
  "Object_keys (VArr xs ps) = map fst (index_props xs) @ map fst (string_props ps)"
| "Object_keys v = map fst (string_props (own_props v))"

fun Object_getOwnPropertySymbols :: "jsval \<Rightarrow> sym list" where
  "Object_getOwnPropertySymbols v = map fst (symbol_props (own_props v))"

text \<open>
  Property lookup (\<open>key in obj\<close> and \<open>obj[key]\<close>): the own properties first, then the
  built-in prototype. Of the prototypes the model holds the properties this module looks
  at: it only ever asks for \<open>@dataType\<close>, \<open>@dataValue\<close>, \<open>source\<close>, \<open>flags\<close>, \<open>toJSON\<close>,
  the type tag, the iterator and the keys an object itself enumerates.
\<close>

fun own_lookup :: "jsval \<Rightarrow> pkey \<Rightarrow> jsval option" where
  "own_lookup (VArr xs ps) (KStr s) =
     (case array_index s of
        Some i \<Rightarrow> (if i < length xs then Some (xs ! i) else map_of ps (KStr s))
      | None \<Rightarrow> (if s = ''length'' then Some (VNum (Finite (int (length xs))))
                 else map_of ps (KStr s)))"
| "own_lookup v k = map_of (own_props v) k"

fun proto_lookup :: "jsval \<Rightarrow> pkey \<Rightarrow> jsval option" where
  "proto_lookup (VDate t ps) (KStr s) =
     (if s = ''toJSON'' then Some (VNative ''Date.prototype.toJSON'') else None)"
| "proto_lookup (VRegExp src fl ps) (KStr s) =
     (if s = ''source'' then Some (VStr src)
      else if s = ''flags'' then Some (VStr fl) else None)"
| "proto_lookup v k = None"

definition lookup :: "jsval \<Rightarrow> pkey \<Rightarrow> jsval option" where
  "lookup v k = (case own_lookup v k of Some x \<Rightarrow> Some x | None \<Rightarrow> proto_lookup v k)"

definition getField :: "jsval \<Rightarrow> pkey \<Rightarrow> jsval" where
  "getField v k = (case lookup v k of Some x \<Rightarrow> x | None \<Rightarrow> VUndefined)"

text \<open>\<open>Symbol.iterator in obj\<close>: arrays, Maps and Sets inherit an iterator.\<close>

fun has_iterator :: "jsval \<Rightarrow> bool" where
  "has_iterator (VArr xs ps) = True"
| "has_iterator (VMap es ps) = True"
| "has_iterator (VSet xs ps) = True"
| "has_iterator v = False"


section \<open>The type checks used by the pickler (Types.ts, TypeChk.ts)\<close>

definition FreikTypeTag :: sym where
  "FreikTypeTag = Symbol_for ''freik.typetag''"

text \<open>
  A \<open>typecheck\<close> is a function of the language that the caller supplies: it may throw, and
  it may change the object it is handed (the object checks of TypeChk.ts delete the fields
  that hold \<open>null\<close> or \<open>undefined\<close>). It gives its verdict and the object as it leaves it.
  \<open>pure_check\<close> makes a check of a predicate that only looks.
\<close>

type_synonym typecheck = "jsval \<Rightarrow> error + bool \<times> jsval"

definition pure_check :: "(jsval \<Rightarrow> bool) \<Rightarrow> typecheck" where
  "pure_check p = (\<lambda>val. Inr (p val, val))"

definition isObject :: "jsval \<Rightarrow> bool" where
  "isObject obj = (typeof obj = TObject)"

definition isEmpty :: "jsval \<Rightarrow> bool" where
  "isEmpty obj = (obj = VUndefined \<or> obj = VNull)"

definition isNonNullable :: "jsval \<Rightarrow> bool" where
  "isNonNullable obj = (\<not> isEmpty obj)"

definition isBothOf :: "jsval \<Rightarrow> (jsval \<Rightarrow> bool) \<Rightarrow> (jsval \<Rightarrow> bool) \<Rightarrow> bool" where
  "isBothOf obj chk1 chk2 = (chk1 obj \<and> chk2 obj)"

definition isOneOf :: "jsval \<Rightarrow> (jsval \<Rightarrow> bool) \<Rightarrow> (jsval \<Rightarrow> bool) \<Rightarrow> bool" where
  "isOneOf obj chk1 chk2 = (chk1 obj \<or> chk2 obj)"

definition chkOneOf :: "(jsval \<Rightarrow> bool) \<Rightarrow> (jsval \<Rightarrow> bool) \<Rightarrow> jsval \<Rightarrow> bool" where
  "chkOneOf chk1 chk2 = (\<lambda>obj. isOneOf obj chk1 chk2)"

definition isObjectNonNull :: "jsval \<Rightarrow> bool" where
  "isObjectNonNull obj = isBothOf obj isObject isNonNullable"

fun isArray :: "jsval \<Rightarrow> bool" where
  "isArray (VArr xs ps) = True"
| "isArray v = False"

fun is2Tuple :: "jsval \<Rightarrow> bool" where
  "is2Tuple (VArr xs ps) = (length xs = 2)"
| "is2Tuple v = False"

definition isString :: "jsval \<Rightarrow> bool" where
  "isString obj = (typeof obj = TString)"

text \<open>\<open>typeof obj === 'number' && !isNaN(obj - 0)\<close>\<close>

fun isNumber :: "jsval \<Rightarrow> bool" where
  "isNumber (VNum n) = (n \<noteq> NaN)"
| "isNumber v = False"

definition isBoolean :: "jsval \<Rightarrow> bool" where
  "isBoolean obj = (typeof obj = TBoolean)"

fun isDate :: "jsval \<Rightarrow> bool" where
  "isDate (VDate t ps) = True"
| "isDate v = False"

definition isBigInt :: "jsval \<Rightarrow> bool" where
  "isBigInt obj = (typeof obj = TBigInt)"

definition isFunction :: "jsval \<Rightarrow> bool" where
  "isFunction obj = (typeof obj = TFunction)"

fun isRegex :: "jsval \<Rightarrow> bool" where
  "isRegex (VRegExp s f ps) = True"
| "isRegex v = False"

fun isMap :: "jsval \<Rightarrow> bool" where
  "isMap (VMap es ps) = True"
| "isMap v = False"

fun isSet :: "jsval \<Rightarrow> bool" where
  "isSet (VSet xs ps) = True"
| "isSet v = False"

definition isSymbol :: "jsval \<Rightarrow> bool" where
  "isSymbol obj = (typeof obj = TSymbol)"

fun isArrayOf :: "jsval \<Rightarrow> (jsval \<Rightarrow> bool) \<Rightarrow> bool" where
  "isArrayOf (VArr xs ps) chk = list_all chk xs"
| "isArrayOf v chk = False"

definition hasField :: "jsval \<Rightarrow> pkey \<Rightarrow> bool" where
  "hasField obj key = (isObjectNonNull obj \<and> lookup obj key \<noteq> None)"

definition hasFieldType :: "jsval \<Rightarrow> pkey \<Rightarrow> (jsval \<Rightarrow> bool) \<Rightarrow> bool" where
  "hasFieldType obj key checker = (hasField obj key \<and> checker (getField obj key))"

definition hasStrField :: "jsval \<Rightarrow> pkey \<Rightarrow> bool" where
  "hasStrField obj key = hasFieldType obj key isString"

definition isIterable :: "jsval \<Rightarrow> bool" where
  "isIterable obj = (isObjectNonNull obj \<and> has_iterator obj)"

definition isCustomType :: "jsval \<Rightarrow> sym \<Rightarrow> bool" where
  "isCustomType obj symb =
     (hasField obj (KSym FreikTypeTag) \<and> getField obj (KSym FreikTypeTag) = VSymbol symb)"

definition chkCustomType :: "sym \<Rightarrow> typecheck" where
  "chkCustomType symb = pure_check (\<lambda>obj. isCustomType obj symb)"

text \<open>
  \<open>isObjectOf\<close> walks \<open>Object.keys(obj)\<close> and \<open>Object.getOwnPropertySymbols(obj)\<close> and asks
  \<open>hasFieldType(obj, k, chk)\<close> for each key \<open>k\<close>; an own key is always \<open>in\<close> the object and
  reads its own value, so the check is \<open>chk\<close> on every own enumerable value.
\<close>

fun own_values :: "jsval \<Rightarrow> jsval list" where
  "own_values (VArr xs ps) = xs @ map snd (string_props ps) @ map snd (symbol_props ps)"
| "own_values v = map snd (string_props (own_props v)) @ map snd (symbol_props (own_props v))"

definition isObjectOf :: "jsval \<Rightarrow> (jsval \<Rightarrow> bool) \<Rightarrow> bool" where
  "isObjectOf obj chk = (isObjectNonNull obj \<and> list_all chk (own_values obj))"

text \<open>
  \<open>isSimpleObject\<close> is recursive through \<open>isArrayOf\<close> and \<open>isObjectOf\<close>. It is defined by
  recursion on the value; \<open>isSimpleObject_source\<close> below shows that it satisfies the
  equation the source is written with.
\<close>

fun isSimpleObject :: "jsval \<Rightarrow> bool"
  and all_simple :: "jsval list \<Rightarrow> bool"
  and all_simple_props :: "(pkey \<times> jsval) list \<Rightarrow> bool" where
  "isSimpleObject VUndefined = False"
| "isSimpleObject VNull = True"
| "isSimpleObject (VBool b) = True"
| "isSimpleObject (VNum n) = (n \<noteq> NaN)"
| "isSimpleObject (VStr s) = True"
| "isSimpleObject (VBigInt i) = False"
| "isSimpleObject (VSymbol s) = False"
| "isSimpleObject (VFun r ps) = False"
| "isSimpleObject (VNative f) = False"
| "isSimpleObject (VObj ps) = all_simple_props ps"
| "isSimpleObject (VArr xs ps) = (all_simple xs \<or> (all_simple xs \<and> all_simple_props ps))"
| "isSimpleObject (VMap es ps) = all_simple_props ps"
| "isSimpleObject (VSet xs ps) = all_simple_props ps"
| "isSimpleObject (VDate t ps) = all_simple_props ps"
| "isSimpleObject (VRegExp s f ps) = all_simple_props ps"
| "all_simple [] = True"
| "all_simple (x # xs) = (isSimpleObject x \<and> all_simple xs)"
| "all_simple_props [] = True"
| "all_simple_props (p # ps) = (isSimpleObject (snd p) \<and> all_simple_props ps)"


section \<open>The built-ins of the language the pickler calls\<close>

text \<open>
  \<open>Date.prototype.toISOString\<close>, \<open>Date.parse\<close> and the \<open>RegExp\<close> constructor are taken as
  parameters: the calendar arithmetic and the grammar of regular expressions are the
  runtime's. \<open>Date_parse\<close> gives \<open>None\<close> for a string that is not a date (the time value
  \<open>NaN\<close>); \<open>RegExp_create\<close> gives \<open>None\<close> where the constructor throws a \<open>SyntaxError\<close>, and
  otherwise the \<open>source\<close> and \<open>flags\<close> of the new object. \<open>method_toString\<close> is
  \<open>val.toString()\<close> on a value that is not a bigint: the method the value has or inherits
  (\<open>[object Object]\<close> for a plain object, a text that depends on the implementation and its
  time zone for a function and a Date, a \<open>TypeError\<close> for \<open>undefined\<close> and \<open>null\<close>).
\<close>

record runtime =
  toISOString :: "int \<Rightarrow> string"
  Date_parse :: "string \<Rightarrow> int option"
  RegExp_create :: "string \<Rightarrow> string \<Rightarrow> (string \<times> string) option"
  method_toString :: "jsval \<Rightarrow> error + jsval"

text \<open>\<open>new Date(str)\<close> never throws: an unparsable string gives an Invalid Date.\<close>

definition new_Date :: "runtime \<Rightarrow> string \<Rightarrow> jsval" where
  "new_Date rt s = VDate (Date_parse rt s) []"

definition new_RegExp :: "runtime \<Rightarrow> string \<Rightarrow> string \<Rightarrow> error + jsval" where
  "new_RegExp rt pattern flags =
     (case RegExp_create rt pattern flags of
        None \<Rightarrow> Inl SyntaxError
      | Some (src, fl) \<Rightarrow> Inr (VRegExp src fl []))"

text \<open>\<open>Date.prototype.toJSON\<close>: \<open>null\<close> for an Invalid Date, else the ISO string.\<close>

fun Date_toJSON :: "runtime \<Rightarrow> jsval \<Rightarrow> error + jsval" where
  "Date_toJSON rt (VDate None ps) = Inr VNull"
| "Date_toJSON rt (VDate (Some t) ps) = Inr (VStr (toISOString rt t))"
| "Date_toJSON rt v = Inl TypeError"

text \<open>Calling a function value as a method of \<open>this\<close>, without arguments that matter.\<close>

fun call_function :: "runtime \<Rightarrow> jsval \<Rightarrow> jsval \<Rightarrow> error + jsval" where
  "call_function rt (VFun r ps) this = Inr r"
| "call_function rt (VNative f) this =
     (if f = ''Date.prototype.toJSON'' then Date_toJSON rt this else Inl TypeError)"
| "call_function rt v this = Inl TypeError"

subsection \<open>\<open>BigInt(string)\<close>\<close>

text \<open>
  White space and line terminators, among the code units of the model: TAB, LF, VT, FF, CR,
  SP and NBSP.
\<close>

definition is_ws :: "char \<Rightarrow> bool" where
  "is_ws c = (of_char c \<in> {9, 10, 11, 12, 13, 32, 160 :: nat})"

definition trim :: "string \<Rightarrow> string" where
  "trim s = rev (dropWhile is_ws (rev (dropWhile is_ws s)))"

definition radix_digit :: "char \<Rightarrow> nat option" where
  "radix_digit c =
     (let n = (of_char c :: nat) in
      if 48 \<le> n \<and> n \<le> 57 then Some (n - 48)
      else if 97 \<le> n \<and> n \<le> 122 then Some (n - 87)
      else if 65 \<le> n \<and> n \<le> 90 then Some (n - 55)
      else None)"

definition parse_radix :: "nat \<Rightarrow> string \<Rightarrow> nat option" where
  "parse_radix r s =
     (if s \<noteq> [] \<and> list_all (\<lambda>c. case radix_digit c of None \<Rightarrow> False | Some d \<Rightarrow> d < r) s
      then Some (foldl (\<lambda>a c. r * a + (case radix_digit c of None \<Rightarrow> 0 | Some d \<Rightarrow> d)) 0 s)
      else None)"

text \<open>
  \<open>StringToBigInt\<close>: surrounding white space is dropped; the empty string is \<open>0n\<close>; a decimal
  numeral may carry a sign; \<open>0x\<close>, \<open>0o\<close> and \<open>0b\<close> numerals may not. \<open>None\<close> is the
  \<open>SyntaxError\<close> of \<open>BigInt(str)\<close>.
\<close>

definition StringToBigInt :: "string \<Rightarrow> int option" where
  "StringToBigInt str =
     (let s = trim str in
      if s = [] then Some 0
      else if hd s = CHR ''+'' then map_option int (parse_radix 10 (tl s))
      else if hd s = CHR ''-'' then map_option (\<lambda>n. - int n) (parse_radix 10 (tl s))
      else if take 2 s = ''0x'' \<or> take 2 s = ''0X'' then map_option int (parse_radix 16 (drop 2 s))
      else if take 2 s = ''0o'' \<or> take 2 s = ''0O'' then map_option int (parse_radix 8 (drop 2 s))
      else if take 2 s = ''0b'' \<or> take 2 s = ''0B'' then map_option int (parse_radix 2 (drop 2 s))
      else map_option int (parse_radix 10 s))"

subsection \<open>Spreading, \<open>new Map\<close> and \<open>new Set\<close>\<close>

text \<open>\<open>[...x]\<close>\<close>

fun spread :: "jsval \<Rightarrow> error + jsval list" where
  "spread (VArr xs ps) = Inr xs"
| "spread (VSet xs ps) = Inr xs"
| "spread (VMap es ps) = Inr (map (\<lambda>(k, v). VArr [k, v] []) es)"
| "spread (VStr s) = Inr (map (\<lambda>c. VStr [c]) s)"
| "spread v = Inl TypeError"

text \<open>
  Map keys and Set elements are compared with SameValueZero: primitives by value, objects
  by identity. The objects of one list are taken to be distinct objects.
\<close>

definition is_primitive :: "jsval \<Rightarrow> bool" where
  "is_primitive v = (typeof v \<noteq> TObject \<and> typeof v \<noteq> TFunction \<or> v = VNull)"

definition same_value_zero :: "jsval \<Rightarrow> jsval \<Rightarrow> bool" where
  "same_value_zero a b = (is_primitive a \<and> a = b)"

fun Map_set :: "(jsval \<times> jsval) list \<Rightarrow> jsval \<Rightarrow> jsval \<Rightarrow> (jsval \<times> jsval) list" where
  "Map_set [] k v = [(k, v)]"
| "Map_set ((k', v') # es) k v =
     (if same_value_zero k' k then (k', v) # es else (k', v') # Map_set es k v)"

fun Set_add :: "jsval list \<Rightarrow> jsval \<Rightarrow> jsval list" where
  "Set_add [] x = [x]"
| "Set_add (y # ys) x = (if same_value_zero y x then y # ys else y # Set_add ys x)"

fun entry_of :: "jsval \<Rightarrow> jsval \<times> jsval" where
  "entry_of (VArr (k # v # xs) ps) = (k, v)"
| "entry_of (VArr [k] ps) = (k, VUndefined)"
| "entry_of e = (VUndefined, VUndefined)"

definition new_Map :: "jsval list \<Rightarrow> jsval" where
  "new_Map entries = VMap (foldl (\<lambda>m e. Map_set m (fst (entry_of e)) (snd (entry_of e))) [] entries) []"

definition new_Set :: "jsval list \<Rightarrow> jsval" where
  "new_Set xs = VSet (foldl Set_add [] xs) []"


section \<open>The pickler (Pickle.ts)\<close>

subsection \<open>The flattened form\<close>

definition isFlattened :: "jsval \<Rightarrow> bool" where
  "isFlattened obj =
     (hasStrField obj (KStr ''@dataType'') \<and> hasFieldType obj (KStr ''@dataValue'') isSimpleObject)"

definition MakeFlat :: "string \<Rightarrow> jsval \<Rightarrow> jsval" where
  "MakeFlat name data = VObj [(KStr ''@dataType'', VStr name), (KStr ''@dataValue'', data)]"

definition GetFlat :: "jsval \<Rightarrow> jsval \<times> jsval" where
  "GetFlat val = (getField val (KStr ''@dataType''), getField val (KStr ''@dataValue''))"

definition SetTag :: sym where "SetTag = Symbol_for ''freik.Set''"
definition MapTag :: sym where "MapTag = Symbol_for ''freik.Map''"
definition SymbolTag :: sym where "SymbolTag = Symbol_for ''freik.Symbol''"
definition RegexTag :: sym where "RegexTag = Symbol_for ''freik.RegExp''"
definition DateTag :: sym where "DateTag = Symbol_for ''freik.Date''"
definition BigIntTag :: sym where "BigIntTag = Symbol_for ''freik.BigInt''"

text \<open>
  An encoder and a decoder may throw; a decoder returns \<open>undefined\<close> when it cannot rebuild
  the value.
\<close>

type_synonym ToFlat = "jsval \<Rightarrow> error + jsval"
type_synonym FromFlat = "jsval \<Rightarrow> error + jsval"

subsection \<open>The built-in encoders and decoders\<close>

text \<open>
  The parameter types of the encoders are erased at run time: a value of another type
  reaches an encoder through a type tag that names a built-in. \<open>val.entries()\<close> exists on
  Maps, Sets and arrays, or as a function the value has of its own; \<open>[...val]\<close> needs an
  iterable; \<open>val.source\<close>, \<open>val.flags\<close> and \<open>val.toJSON\<close> are property reads;
  \<open>val.toString()\<close> writes a bigint in decimal and is the runtime's on any other value.
\<close>

definition MapPickle :: ToFlat where
  "MapPickle val =
     (case map_of (own_props val) (KStr ''entries'') of
        Some (VFun r ps) \<Rightarrow>
          (case spread r of Inl e \<Rightarrow> Inl e | Inr xs \<Rightarrow> Inr (VArr xs []))
      | Some f \<Rightarrow> Inl TypeError
      | None \<Rightarrow>
          (case val of
             VMap es ps \<Rightarrow> Inr (VArr (map (\<lambda>(k, v). VArr [k, v] []) es) [])
           | VSet xs ps \<Rightarrow> Inr (VArr (map (\<lambda>x. VArr [x, x] []) xs) [])
           | VArr xs ps \<Rightarrow>
               Inr (VArr (map (\<lambda>(i, x). VArr [VNum (Finite (int i)), x] []) (enumerate 0 xs)) [])
           | _ \<Rightarrow> Inl TypeError))"

definition MapUnpickle :: FromFlat where
  "MapUnpickle val =
     (if isArrayOf val is2Tuple
      then (case val of VArr xs ps \<Rightarrow> Inr (new_Map xs) | _ \<Rightarrow> Inr VUndefined)
      else Inr VUndefined)"

definition SetPickle :: ToFlat where
  "SetPickle val = (case spread val of Inl e \<Rightarrow> Inl e | Inr xs \<Rightarrow> Inr (VArr xs []))"

definition SetUnpickle :: FromFlat where
  "SetUnpickle val =
     (if isArray val
      then (case val of VArr xs ps \<Rightarrow> Inr (new_Set xs) | _ \<Rightarrow> Inr VUndefined)
      else Inr VUndefined)"

fun SymbolPickle :: ToFlat where
  "SymbolPickle (VSymbol s) =
     (case Symbol_keyFor s of
        None \<Rightarrow> Inl (Error ''Unable to get a key for a symbol for pickling'')
      | Some theKey \<Rightarrow> Inr (VStr theKey))"
| "SymbolPickle v = Inl TypeError"

definition SymbolUnpickle :: FromFlat where
  "SymbolUnpickle val =
     (if isString val
      then (case val of VStr s \<Rightarrow> Inr (VSymbol (Symbol_for s)) | _ \<Rightarrow> Inr VUndefined)
      else Inr VUndefined)"

definition RegexPickle :: ToFlat where
  "RegexPickle val =
     Inr (VObj [(KStr ''source'', getField val (KStr ''source'')),
                (KStr ''flags'', getField val (KStr ''flags''))])"

definition RegexUnpickle :: "runtime \<Rightarrow> FromFlat" where
  "RegexUnpickle rt val =
     (if hasStrField val (KStr ''source'') \<and> hasStrField val (KStr ''flags'')
      then (case (getField val (KStr ''source''), getField val (KStr ''flags'')) of
              (VStr src, VStr fl) \<Rightarrow> new_RegExp rt src fl
            | _ \<Rightarrow> Inr VUndefined)
      else Inr VUndefined)"

definition DatePickle :: "runtime \<Rightarrow> ToFlat" where
  "DatePickle rt val = call_function rt (getField val (KStr ''toJSON'')) val"

text \<open>The \<open>try\<close> of \<open>DateUnpickle\<close> has nothing to catch: \<open>new Date(val)\<close> does not throw.\<close>

definition DateUnpickle :: "runtime \<Rightarrow> FromFlat" where
  "DateUnpickle rt val =
     (if isString val
      then (case val of VStr s \<Rightarrow> Inr (new_Date rt s) | _ \<Rightarrow> Inr VUndefined)
      else Inr VUndefined)"

fun BigIntPickle :: "runtime \<Rightarrow> ToFlat" where
  "BigIntPickle rt (VBigInt i) = Inr (VStr (dec_int i))"
| "BigIntPickle rt v = method_toString rt v"

text \<open>\<open>BigInt(val)\<close> throws on a string that is no numeral; the \<open>catch\<close> returns \<open>undefined\<close>.\<close>

definition BigIntUnpickle :: FromFlat where
  "BigIntUnpickle val =
     (if isString val
      then (case val of
              VStr s \<Rightarrow> (case StringToBigInt s of
                           None \<Rightarrow> Inr VUndefined
                         | Some i \<Rightarrow> Inr (VBigInt i))
            | _ \<Rightarrow> Inr VUndefined)
      else Inr VUndefined)"

definition builtInPickleTypes :: "((jsval \<Rightarrow> bool) \<times> sym) list" where
  "builtInPickleTypes =
     [(isMap, MapTag), (isSet, SetTag), (isSymbol, SymbolTag),
      (isRegex, RegexTag), (isDate, DateTag), (isBigInt, BigIntTag)]"

definition thePicklers :: "runtime \<Rightarrow> sym \<Rightarrow> ToFlat option" where
  "thePicklers rt =
     map_of [(MapTag, MapPickle), (SetTag, SetPickle), (SymbolTag, SymbolPickle),
             (RegexTag, RegexPickle), (DateTag, DatePickle rt), (BigIntTag, BigIntPickle rt)]"

definition theUnpicklers :: "runtime \<Rightarrow> sym \<Rightarrow> FromFlat option" where
  "theUnpicklers rt =
     map_of [(MapTag, MapUnpickle), (SetTag, SetUnpickle), (SymbolTag, SymbolUnpickle),
             (RegexTag, RegexUnpickle rt), (DateTag, DateUnpickle rt), (BigIntTag, BigIntUnpickle)]"

subsection \<open>The registry\<close>

text \<open>
  The two maps live in one slot of the global object; every function reads them from
  there. The model passes the slot's content along as the registry.
\<close>

record registry =
  reg_to :: "sym \<Rightarrow> ToFlat option"
  reg_from :: "sym \<Rightarrow> FromFlat option"

definition initial_registry :: "runtime \<Rightarrow> registry" where
  "initial_registry rt = \<lparr>reg_to = thePicklers rt, reg_from = theUnpicklers rt\<rparr>"

definition getPickleHandler :: "registry \<Rightarrow> sym \<Rightarrow> ToFlat option" where
  "getPickleHandler reg s = reg_to reg s"

definition setPickleHandler :: "registry \<Rightarrow> sym \<Rightarrow> ToFlat \<Rightarrow> registry" where
  "setPickleHandler reg pickleTag toString = reg\<lparr>reg_to := (reg_to reg)(pickleTag \<mapsto> toString)\<rparr>"

definition getUnpickleHandler :: "registry \<Rightarrow> sym \<Rightarrow> FromFlat option" where
  "getUnpickleHandler reg s = reg_from reg s"

definition setUnpickleHandler :: "registry \<Rightarrow> sym \<Rightarrow> FromFlat \<Rightarrow> registry" where
  "setUnpickleHandler reg pickleTag fromString =
     reg\<lparr>reg_from := (reg_from reg)(pickleTag \<mapsto> fromString)\<rparr>"

definition RegisterForPickling :: "registry \<Rightarrow> sym \<Rightarrow> FromFlat \<Rightarrow> ToFlat option \<Rightarrow> registry" where
  "RegisterForPickling reg pickleTag fromString toString =
     setUnpickleHandler
       (case toString of None \<Rightarrow> reg | Some f \<Rightarrow> setPickleHandler reg pickleTag f)
       pickleTag fromString"

subsection \<open>Choosing the encoder\<close>

text \<open>The encoder of a tagged value without a registered encoder: its own \<open>toJSON\<close>.\<close>

definition toJSON_pickler :: "runtime \<Rightarrow> ToFlat" where
  "toJSON_pickler rt val =
     (if hasFieldType val (KStr ''toJSON'') isFunction
      then call_function rt (getField val (KStr ''toJSON'')) val
      else Inr (VStr ''ERROR''))"

fun builtInPickler :: "registry \<Rightarrow> jsval \<Rightarrow> ((jsval \<Rightarrow> bool) \<times> sym) list \<Rightarrow> (sym \<times> ToFlat) option" where
  "builtInPickler reg obj [] = None"
| "builtInPickler reg obj ((checker, symb) # rest) =
     (if checker obj
      then (case getPickleHandler reg symb of
              Some p \<Rightarrow> Some (symb, p)
            | None \<Rightarrow> builtInPickler reg obj rest)
      else builtInPickler reg obj rest)"

definition getPickler :: "runtime \<Rightarrow> registry \<Rightarrow> jsval \<Rightarrow> (sym \<times> ToFlat) option" where
  "getPickler rt reg obj =
     (if hasFieldType obj (KSym FreikTypeTag) isSymbol
      then (case getField obj (KSym FreikTypeTag) of
              VSymbol s \<Rightarrow>
                (case getPickleHandler reg s of
                   Some p \<Rightarrow> Some (s, p)
                 | None \<Rightarrow>
                     (if hasFieldType obj (KStr ''toJSON'') isFunction
                      then Some (s, toJSON_pickler rt)
                      else builtInPickler reg obj builtInPickleTypes))
            | _ \<Rightarrow> builtInPickler reg obj builtInPickleTypes)
      else builtInPickler reg obj builtInPickleTypes)"

definition getUnpickler :: "registry \<Rightarrow> string \<Rightarrow> FromFlat option" where
  "getUnpickler reg keyName = getUnpickleHandler reg (Symbol_for keyName)"

subsection \<open>The per-node transforms\<close>

text \<open>
  \<open>JSON.stringify\<close> calls \<open>replacer\<close> with the holder as \<open>this\<close>, the key, and the value
  after its \<open>toJSON\<close>; \<open>this[key]\<close> is the value before it. The model passes that original
  value instead of holder and key. \<open>!keyFor\<close> holds for \<open>undefined\<close> and for the empty
  string.
\<close>

definition replacer :: "runtime \<Rightarrow> registry \<Rightarrow> jsval \<Rightarrow> jsval \<Rightarrow> error + jsval" where
  "replacer rt reg originalObject val =
     (case getPickler rt reg originalObject of
        Some (s, toFlat) \<Rightarrow>
          (case Symbol_keyFor s of
             None \<Rightarrow> Inr val
           | Some keyFor \<Rightarrow>
               (if keyFor = [] then Inr val
                else (case toFlat originalObject of
                        Inl e \<Rightarrow> Inl e
                      | Inr flat \<Rightarrow> Inr (MakeFlat keyFor flat))))
      | None \<Rightarrow>
          (if isIterable originalObject
           then (case spread originalObject of Inl e \<Rightarrow> Inl e | Inr xs \<Rightarrow> Inr (VArr xs []))
           else Inr val))"

text \<open>The key is not used by \<open>reviver\<close>.\<close>

definition reviver :: "registry \<Rightarrow> jsval \<Rightarrow> error + jsval" where
  "reviver reg val =
     (if isFlattened val
      then (case GetFlat val of
              (VStr name, forUnpickling) \<Rightarrow>
                (case getUnpickler reg name of
                   Some pickler \<Rightarrow>
                     (case pickler forUnpickling of
                        Inl e \<Rightarrow> Inl e
                      | Inr res \<Rightarrow> (if res \<noteq> VUndefined then Inr res else Inr val))
                 | None \<Rightarrow> Inr val)
            | _ \<Rightarrow> Inr val)
      else Inr val)"


section \<open>JSON text, \<open>JSON.stringify\<close> and \<open>JSON.parse\<close>\<close>

text \<open>
  A JSON text is represented by its syntax tree: the members of an object in the order of
  the text, duplicates included. \<open>render\<close> writes the tree as \<open>JSON.stringify\<close> does, without
  white space. \<open>JSON.stringify\<close> produces a tree and \<open>JSON.parse\<close> consumes one; reading the
  characters back into the tree is the parser's part and is not modelled. A number of the
  text is represented by the number the parser reads from it.
\<close>

datatype json =
    JNull
  | JBool bool
  | JNum int
  | JStr string
  | JArr "json list"
  | JObj "(string \<times> json) list"

definition hex_digit :: "nat \<Rightarrow> char" where
  "hex_digit d = ''0123456789abcdef'' ! d"

definition quote_char :: "char \<Rightarrow> string" where
  "quote_char c =
     (let n = (of_char c :: nat) in
      if n = 34 then [CHR 0x5C, CHR 0x22]
      else if n = 92 then [CHR 0x5C, CHR 0x5C]
      else if n = 8 then [CHR 0x5C, CHR ''b'']
      else if n = 9 then [CHR 0x5C, CHR ''t'']
      else if n = 10 then [CHR 0x5C, CHR ''n'']
      else if n = 12 then [CHR 0x5C, CHR ''f'']
      else if n = 13 then [CHR 0x5C, CHR ''r'']
      else if n < 32 then [CHR 0x5C, CHR ''u'', CHR ''0'', CHR ''0'',
                           hex_digit (n div 16), hex_digit (n mod 16)]
      else [c])"

definition QuoteJSONString :: "string \<Rightarrow> string" where
  "QuoteJSONString s = [CHR 0x22] @ concat (map quote_char s) @ [CHR 0x22]"

fun commas :: "string list \<Rightarrow> string" where
  "commas [] = []"
| "commas [x] = x"
| "commas (x # y # ys) = x @ '','' @ commas (y # ys)"

fun render :: "json \<Rightarrow> string"
  and render_list :: "json list \<Rightarrow> string list"
  and render_members :: "(string \<times> json) list \<Rightarrow> string list" where
  "render JNull = ''null''"
| "render (JBool b) = (if b then ''true'' else ''false'')"
| "render (JNum i) = dec_int i"
| "render (JStr s) = QuoteJSONString s"
| "render (JArr ts) = ''['' @ commas (render_list ts) @ '']''"
| "render (JObj ms) = ''{'' @ commas (render_members ms) @ ''}''"
| "render_list [] = []"
| "render_list (t # ts) = render t # render_list ts"
| "render_members [] = []"
| "render_members (m # ms) = (QuoteJSONString (fst m) @ '':'' @ render (snd m)) # render_members ms"

subsection \<open>\<open>JSON.stringify(input, replacer)\<close>\<close>

fun traverse :: "('a \<Rightarrow> error + 'b) \<Rightarrow> 'a list \<Rightarrow> error + 'b list" where
  "traverse f [] = Inr []"
| "traverse f (x # xs) =
     (case f x of
        Inl e \<Rightarrow> Inl e
      | Inr y \<Rightarrow> (case traverse f xs of Inl e \<Rightarrow> Inl e | Inr ys \<Rightarrow> Inr (y # ys)))"

text \<open>Step 2 of SerializeJSONProperty: an object or BigInt with a callable \<open>toJSON\<close>.\<close>

definition apply_toJSON :: "runtime \<Rightarrow> jsval \<Rightarrow> error + jsval" where
  "apply_toJSON rt v =
     (if isObjectNonNull v \<or> isFunction v \<or> isBigInt v
      then (case lookup v (KStr ''toJSON'') of
              Some f \<Rightarrow> (if isFunction f then call_function rt f v else Inr v)
            | None \<Rightarrow> Inr v)
      else Inr v)"

definition SerializeJSONArray :: "(jsval \<Rightarrow> error + json option) \<Rightarrow> jsval list \<Rightarrow> error + json option" where
  "SerializeJSONArray ser xs =
     (case traverse ser xs of
        Inl e \<Rightarrow> Inl e
      | Inr ts \<Rightarrow> Inr (Some (JArr (map (\<lambda>t. case t of None \<Rightarrow> JNull | Some j \<Rightarrow> j) ts))))"

definition SerializeJSONObject ::
  "(jsval \<Rightarrow> error + json option) \<Rightarrow> (pkey \<times> jsval) list \<Rightarrow> error + json option" where
  "SerializeJSONObject ser ps =
     (case traverse (\<lambda>(k, v). case ser v of Inl e \<Rightarrow> Inl e | Inr t \<Rightarrow> Inr (k, t)) (string_props ps) of
        Inl e \<Rightarrow> Inl e
      | Inr ms \<Rightarrow>
          Inr (Some (JObj (concat (map (\<lambda>(k, t). case t of None \<Rightarrow> [] | Some j \<Rightarrow> [(k, j)]) ms)))))"

text \<open>The last step of SerializeJSONProperty, on the value the replacer returned.\<close>

fun serialize_value :: "(jsval \<Rightarrow> error + json option) \<Rightarrow> jsval \<Rightarrow> error + json option" where
  "serialize_value ser VUndefined = Inr None"
| "serialize_value ser VNull = Inr (Some JNull)"
| "serialize_value ser (VBool b) = Inr (Some (JBool b))"
| "serialize_value ser (VNum (Finite i)) = Inr (Some (JNum i))"
| "serialize_value ser (VNum n) = Inr (Some JNull)"
| "serialize_value ser (VStr s) = Inr (Some (JStr s))"
| "serialize_value ser (VBigInt i) = Inl TypeError"
| "serialize_value ser (VSymbol s) = Inr None"
| "serialize_value ser (VFun r ps) = Inr None"
| "serialize_value ser (VNative f) = Inr None"
| "serialize_value ser (VArr xs ps) = SerializeJSONArray ser xs"
| "serialize_value ser v = SerializeJSONObject ser (own_props v)"

text \<open>
  The recursion of the serialiser follows what the encoders return, so it is bounded by
  the depth of the call stack: the first argument. Exhausting it is the \<open>RangeError\<close> of a
  stack overflow.
\<close>

primrec SerializeJSONProperty :: "nat \<Rightarrow> runtime \<Rightarrow> registry \<Rightarrow> jsval \<Rightarrow> error + json option" where
  "SerializeJSONProperty 0 rt reg = (\<lambda>original. Inl RangeError)"
| "SerializeJSONProperty (Suc n) rt reg =
     (\<lambda>original.
        case apply_toJSON rt original of
          Inl e \<Rightarrow> Inl e
        | Inr val \<Rightarrow>
            (case replacer rt reg original val of
               Inl e \<Rightarrow> Inl e
             | Inr val' \<Rightarrow> serialize_value (SerializeJSONProperty n rt reg) val'))"

subsection \<open>\<open>JSON.parse(input, reviver)\<close>\<close>

text \<open>
  CreateDataProperty on the object under construction: a key already there keeps its place
  and takes the new value; a new array index goes among the indices, in ascending order;
  any other new key goes last.
\<close>

fun insert_index :: "nat \<Rightarrow> string \<Rightarrow> jsval \<Rightarrow> (pkey \<times> jsval) list \<Rightarrow> (pkey \<times> jsval) list" where
  "insert_index i k v [] = [(KStr k, v)]"
| "insert_index i k v ((KStr k', v') # ps) =
     (case array_index k' of
        Some j \<Rightarrow> (if j < i then (KStr k', v') # insert_index i k v ps
                   else (KStr k, v) # (KStr k', v') # ps)
      | None \<Rightarrow> (KStr k, v) # (KStr k', v') # ps)"
| "insert_index i k v ((KSym y, v') # ps) = (KStr k, v) # (KSym y, v') # ps"

definition CreateDataProperty :: "(pkey \<times> jsval) list \<Rightarrow> string \<Rightarrow> jsval \<Rightarrow> (pkey \<times> jsval) list" where
  "CreateDataProperty ps k v =
     (if KStr k \<in> set (map fst ps)
      then map (\<lambda>(k', v'). if k' = KStr k then (k', v) else (k', v')) ps
      else (case array_index k of
              Some i \<Rightarrow> insert_index i k v ps
            | None \<Rightarrow> ps @ [(KStr k, v)]))"

fun JSON_value :: "json \<Rightarrow> jsval"
  and JSON_values :: "json list \<Rightarrow> jsval list"
  and JSON_members :: "(string \<times> json) list \<Rightarrow> (string \<times> jsval) list" where
  "JSON_value JNull = VNull"
| "JSON_value (JBool b) = VBool b"
| "JSON_value (JNum i) = VNum (Finite i)"
| "JSON_value (JStr s) = VStr s"
| "JSON_value (JArr ts) = VArr (JSON_values ts) []"
| "JSON_value (JObj ms) = VObj (foldl (\<lambda>ps (k, v). CreateDataProperty ps k v) [] (JSON_members ms))"
| "JSON_values [] = []"
| "JSON_values (t # ts) = JSON_value t # JSON_values ts"
| "JSON_members [] = []"
| "JSON_members (m # ms) = (fst m, JSON_value (snd m)) # JSON_members ms"

text \<open>
  InternalizeJSONProperty: the elements of an array and the own string-keyed properties of
  any other object are revived first, then the value itself. A property revived to
  \<open>undefined\<close> is deleted; an array element revived to \<open>undefined\<close> stays as \<open>undefined\<close>.
\<close>

fun InternalizeJSONProperty :: "registry \<Rightarrow> jsval \<Rightarrow> error + jsval"
  and Internalize_elements :: "registry \<Rightarrow> jsval list \<Rightarrow> error + jsval list"
  and Internalize_props :: "registry \<Rightarrow> (pkey \<times> jsval) list \<Rightarrow> error + (pkey \<times> jsval) list" where
  "InternalizeJSONProperty reg (VArr xs ps) =
     (case Internalize_elements reg xs of
        Inl e \<Rightarrow> Inl e | Inr xs' \<Rightarrow> reviver reg (VArr xs' ps))"
| "InternalizeJSONProperty reg (VObj ps) =
     (case Internalize_props reg ps of
        Inl e \<Rightarrow> Inl e | Inr ps' \<Rightarrow> reviver reg (VObj ps'))"
| "InternalizeJSONProperty reg (VFun r ps) =
     (case Internalize_props reg ps of
        Inl e \<Rightarrow> Inl e | Inr ps' \<Rightarrow> reviver reg (VFun r ps'))"
| "InternalizeJSONProperty reg (VMap es ps) =
     (case Internalize_props reg ps of
        Inl e \<Rightarrow> Inl e | Inr ps' \<Rightarrow> reviver reg (VMap es ps'))"
| "InternalizeJSONProperty reg (VSet xs ps) =
     (case Internalize_props reg ps of
        Inl e \<Rightarrow> Inl e | Inr ps' \<Rightarrow> reviver reg (VSet xs ps'))"
| "InternalizeJSONProperty reg (VDate t ps) =
     (case Internalize_props reg ps of
        Inl e \<Rightarrow> Inl e | Inr ps' \<Rightarrow> reviver reg (VDate t ps'))"
| "InternalizeJSONProperty reg (VRegExp s f ps) =
     (case Internalize_props reg ps of
        Inl e \<Rightarrow> Inl e | Inr ps' \<Rightarrow> reviver reg (VRegExp s f ps'))"
| "InternalizeJSONProperty reg VUndefined = reviver reg VUndefined"
| "InternalizeJSONProperty reg VNull = reviver reg VNull"
| "InternalizeJSONProperty reg (VBool b) = reviver reg (VBool b)"
| "InternalizeJSONProperty reg (VNum n) = reviver reg (VNum n)"
| "InternalizeJSONProperty reg (VStr s) = reviver reg (VStr s)"
| "InternalizeJSONProperty reg (VBigInt i) = reviver reg (VBigInt i)"
| "InternalizeJSONProperty reg (VSymbol s) = reviver reg (VSymbol s)"
| "InternalizeJSONProperty reg (VNative f) = reviver reg (VNative f)"
| "Internalize_elements reg [] = Inr []"
| "Internalize_elements reg (x # xs) =
     (case InternalizeJSONProperty reg x of
        Inl e \<Rightarrow> Inl e
      | Inr x' \<Rightarrow> (case Internalize_elements reg xs of
                     Inl e \<Rightarrow> Inl e | Inr xs' \<Rightarrow> Inr (x' # xs')))"
| "Internalize_props reg [] = Inr []"
| "Internalize_props reg ((KSym y, v) # ps) =
     (case Internalize_props reg ps of
        Inl e \<Rightarrow> Inl e | Inr ps' \<Rightarrow> Inr ((KSym y, v) # ps'))"
| "Internalize_props reg ((KStr k, v) # ps) =
     (case InternalizeJSONProperty reg v of
        Inl e \<Rightarrow> Inl e
      | Inr v' \<Rightarrow> (case Internalize_props reg ps of
                     Inl e \<Rightarrow> Inl e
                   | Inr ps' \<Rightarrow> Inr (if v' = VUndefined then ps' else (KStr k, v') # ps')))"

subsection \<open>The public functions\<close>

text \<open>
  \<open>Pickle\<close> returns what \<open>JSON.stringify\<close> returns: a text, or \<open>undefined\<close> (\<open>None\<close>) when the
  root serialises to nothing.
\<close>

definition Pickle :: "nat \<Rightarrow> runtime \<Rightarrow> registry \<Rightarrow> jsval \<Rightarrow> error + json option" where
  "Pickle depth rt reg input = SerializeJSONProperty depth rt reg input"

definition Unpickle :: "registry \<Rightarrow> json \<Rightarrow> error + jsval" where
  "Unpickle reg input = InternalizeJSONProperty reg (JSON_value input)"

definition UnsafelyUnpickle :: "registry \<Rightarrow> json \<Rightarrow> error + jsval" where
  "UnsafelyUnpickle reg input = Unpickle reg input"

text \<open>\<open>check(res) ? res : undefined\<close>: the object returned is the one the check was run on.\<close>

definition SafelyUnpickle :: "registry \<Rightarrow> json \<Rightarrow> typecheck \<Rightarrow> error + jsval" where
  "SafelyUnpickle reg input check =
     (case UnsafelyUnpickle reg input of
        Inl e \<Rightarrow> Inl e
      | Inr res \<Rightarrow>
          (case check res of
             Inl e \<Rightarrow> Inl e
           | Inr (ok, res') \<Rightarrow> Inr (if ok then res' else VUndefined)))"


text \<open>
  \<open>Unpickle(Pickle(v))\<close> and \<open>Pickle(Unpickle(Pickle(v)))\<close>. When \<open>Pickle\<close> returns \<open>undefined\<close>,
  \<open>JSON.parse\<close> is handed something that is not a JSON text and throws a \<open>SyntaxError\<close>.
\<close>

definition Unpickle_Pickle :: "nat \<Rightarrow> runtime \<Rightarrow> registry \<Rightarrow> jsval \<Rightarrow> error + jsval" where
  "Unpickle_Pickle depth rt reg v =
     (case Pickle depth rt reg v of
        Inl e \<Rightarrow> Inl e
      | Inr None \<Rightarrow> Inl SyntaxError
      | Inr (Some text) \<Rightarrow> Unpickle reg text)"

definition Pickle_Unpickle_Pickle :: "nat \<Rightarrow> runtime \<Rightarrow> registry \<Rightarrow> jsval \<Rightarrow> error + json option" where
  "Pickle_Unpickle_Pickle depth rt reg v =
     (case Unpickle_Pickle depth rt reg v of
        Inl e \<Rightarrow> Inl e
      | Inr v' \<Rightarrow> Pickle depth rt reg v')"

section \<open>Vocabulary of the properties\<close>

text \<open>The six built-in tags still have their built-in encoders and decoders.\<close>

definition built_ins_registered :: "runtime \<Rightarrow> registry \<Rightarrow> bool" where
  "built_ins_registered rt reg =
     (reg_to reg MapTag = Some MapPickle \<and> reg_from reg MapTag = Some MapUnpickle
      \<and> reg_to reg SetTag = Some SetPickle \<and> reg_from reg SetTag = Some SetUnpickle
      \<and> reg_to reg SymbolTag = Some SymbolPickle \<and> reg_from reg SymbolTag = Some SymbolUnpickle
      \<and> reg_to reg RegexTag = Some RegexPickle \<and> reg_from reg RegexTag = Some (RegexUnpickle rt)
      \<and> reg_to reg DateTag = Some (DatePickle rt) \<and> reg_from reg DateTag = Some (DateUnpickle rt)
      \<and> reg_to reg BigIntTag = Some (BigIntPickle rt) \<and> reg_from reg BigIntTag = Some BigIntUnpickle)"

text \<open>
  The own keys of an ordinary object come in a fixed order: the array indices ascending,
  then the other strings. Every object has its string keys in this order, without
  repetition.
\<close>

fun keys_in_order :: "string list \<Rightarrow> bool" where
  "keys_in_order [] = True"
| "keys_in_order (k # ks) =
     (k \<notin> set ks
      \<and> (case array_index k of
           Some i \<Rightarrow> list_all (\<lambda>k'. case array_index k' of Some j \<Rightarrow> i < j | None \<Rightarrow> True) ks
         | None \<Rightarrow> list_all (\<lambda>k'. array_index k' = None) ks)
      \<and> keys_in_order ks)"

fun string_keyed :: "(pkey \<times> jsval) list \<Rightarrow> bool" where
  "string_keyed [] = True"
| "string_keyed ((KStr k, v) # ps) = string_keyed ps"
| "string_keyed ((KSym y, v) # ps) = False"

text \<open>
  The values that JSON and the built-in tags can carry without loss: \<open>null\<close>, booleans,
  finite numbers (the model has no negative zero, which JSON writes as \<open>0\<close>), strings,
  BigInts, symbols with a global key, valid Dates and regular expressions the runtime builds
  back, arrays, Sets and Maps of such values whose members are simple objects and pairwise
  different, and plain string-keyed objects of such values that do not have the flattened
  shape. None carries further properties of its own.
\<close>

function (sequential) faithful :: "runtime \<Rightarrow> jsval \<Rightarrow> bool"
  and faithful_list :: "runtime \<Rightarrow> jsval list \<Rightarrow> bool"
  and faithful_entries :: "runtime \<Rightarrow> (jsval \<times> jsval) list \<Rightarrow> bool"
  and faithful_props :: "runtime \<Rightarrow> (pkey \<times> jsval) list \<Rightarrow> bool" where
  "faithful rt VUndefined = False"
| "faithful rt VNull = True"
| "faithful rt (VBool b) = True"
| "faithful rt (VNum n) = (case n of Finite i \<Rightarrow> True | _ \<Rightarrow> False)"
| "faithful rt (VStr s) = True"
| "faithful rt (VBigInt i) = True"
| "faithful rt (VSymbol y) = (case Symbol_keyFor y of Some k \<Rightarrow> True | None \<Rightarrow> False)"
| "faithful rt (VFun r ps) = False"
| "faithful rt (VNative f) = False"
| "faithful rt (VObj ps) =
     (string_keyed ps \<and> keys_in_order (map fst (string_props ps)) \<and> faithful_props rt ps
      \<and> \<not> isFlattened (VObj ps))"
| "faithful rt (VArr xs ps) = (ps = [] \<and> faithful_list rt xs)"
| "faithful rt (VMap es ps) =
     (ps = [] \<and> faithful_entries rt es
      \<and> new_Map (map (\<lambda>(k, v). VArr [k, v] []) es) = VMap es [])"
| "faithful rt (VSet xs ps) =
     (ps = [] \<and> faithful_list rt xs \<and> all_simple xs \<and> new_Set xs = VSet xs [])"
| "faithful rt (VDate t ps) =
     (ps = [] \<and> (case t of Some ms \<Rightarrow> Date_parse rt (toISOString rt ms) = Some ms | None \<Rightarrow> False))"
| "faithful rt (VRegExp src fl ps) = (ps = [] \<and> RegExp_create rt src fl = Some (src, fl))"
| "faithful_list rt [] = True"
| "faithful_list rt (x # xs) = (faithful rt x \<and> faithful_list rt xs)"
| "faithful_entries rt [] = True"
| "faithful_entries rt ((k, v) # es) =
     (faithful rt k \<and> isSimpleObject k \<and> faithful rt v \<and> isSimpleObject v
      \<and> faithful_entries rt es)"
| "faithful_props rt [] = True"
| "faithful_props rt ((k, v) # ps) = (faithful rt v \<and> faithful_props rt ps)"
  by pat_completeness auto
termination
  by (relation "measure (\<lambda>x. case x of
        Inl (Inl (rt, v)) \<Rightarrow> size v
      | Inl (Inr (rt, xs)) \<Rightarrow> size_list size xs
      | Inr (Inl (rt, es)) \<Rightarrow> size_list (size_prod size size) es
      | Inr (Inr (rt, ps)) \<Rightarrow> size_list (size_prod (\<lambda>k. 0) size) ps)") auto

text \<open>How deep the serialiser's recursion goes on a value of this kind.\<close>

function (sequential) stack_need :: "jsval \<Rightarrow> nat"
  and stack_need_list :: "jsval list \<Rightarrow> nat"
  and stack_need_entries :: "(jsval \<times> jsval) list \<Rightarrow> nat"
  and stack_need_props :: "(pkey \<times> jsval) list \<Rightarrow> nat" where
  "stack_need VUndefined = 1"
| "stack_need VNull = 1"
| "stack_need (VBool b) = 1"
| "stack_need (VNum n) = 1"
| "stack_need (VStr s) = 1"
| "stack_need (VBigInt i) = 2"
| "stack_need (VSymbol y) = 2"
| "stack_need (VFun r ps) = 1"
| "stack_need (VNative f) = 1"
| "stack_need (VObj ps) = Suc (stack_need_props ps)"
| "stack_need (VArr xs ps) = Suc (stack_need_list xs)"
| "stack_need (VMap es ps) = Suc (Suc (Suc (stack_need_entries es)))"
| "stack_need (VSet xs ps) = Suc (Suc (stack_need_list xs))"
| "stack_need (VDate t ps) = 2"
| "stack_need (VRegExp src fl ps) = 3"
| "stack_need_list [] = 0"
| "stack_need_list (x # xs) = max (stack_need x) (stack_need_list xs)"
| "stack_need_entries [] = 0"
| "stack_need_entries ((k, v) # es) =
     max (max (stack_need k) (stack_need v)) (stack_need_entries es)"
| "stack_need_props [] = 0"
| "stack_need_props ((k, v) # ps) = max (stack_need v) (stack_need_props ps)"
  by pat_completeness auto
termination
  by (relation "measure (\<lambda>x. case x of
        Inl (Inl v) \<Rightarrow> size v
      | Inl (Inr xs) \<Rightarrow> size_list size xs
      | Inr (Inl es) \<Rightarrow> size_list (size_prod size size) es
      | Inr (Inr ps) \<Rightarrow> size_list (size_prod (\<lambda>k. 0) size) ps)") auto

text \<open>
  The text \<open>Pickle\<close> writes for a faithful value, in closed form. It is used in the proofs
  only: \<open>serialize_faithful\<close> shows that the serialiser computes it.
\<close>

definition flat_text :: "string \<Rightarrow> json \<Rightarrow> json" where
  "flat_text name payload = JObj [(''@dataType'', JStr name), (''@dataValue'', payload)]"

function (sequential) encoding :: "runtime \<Rightarrow> jsval \<Rightarrow> json"
  and encoding_list :: "runtime \<Rightarrow> jsval list \<Rightarrow> json list"
  and encoding_entries :: "runtime \<Rightarrow> (jsval \<times> jsval) list \<Rightarrow> json list"
  and encoding_props :: "runtime \<Rightarrow> (pkey \<times> jsval) list \<Rightarrow> (string \<times> json) list" where
  "encoding rt VNull = JNull"
| "encoding rt (VBool b) = JBool b"
| "encoding rt (VNum (Finite i)) = JNum i"
| "encoding rt (VStr s) = JStr s"
| "encoding rt (VBigInt i) = flat_text ''freik.BigInt'' (JStr (dec_int i))"
| "encoding rt (VSymbol (GlobalSym k)) = flat_text ''freik.Symbol'' (JStr k)"
| "encoding rt (VObj ps) = JObj (encoding_props rt ps)"
| "encoding rt (VArr xs ps) = JArr (encoding_list rt xs)"
| "encoding rt (VMap es ps) = flat_text ''freik.Map'' (JArr (encoding_entries rt es))"
| "encoding rt (VSet xs ps) = flat_text ''freik.Set'' (JArr (encoding_list rt xs))"
| "encoding rt (VDate (Some ms) ps) = flat_text ''freik.Date'' (JStr (toISOString rt ms))"
| "encoding rt (VRegExp src fl ps) =
     flat_text ''freik.RegExp'' (JObj [(''source'', JStr src), (''flags'', JStr fl)])"
| "encoding rt v = JNull"
| "encoding_list rt [] = []"
| "encoding_list rt (x # xs) = encoding rt x # encoding_list rt xs"
| "encoding_entries rt [] = []"
| "encoding_entries rt ((k, v) # es) = JArr [encoding rt k, encoding rt v] # encoding_entries rt es"
| "encoding_props rt [] = []"
| "encoding_props rt ((KStr k, v) # ps) = (k, encoding rt v) # encoding_props rt ps"
| "encoding_props rt ((KSym y, v) # ps) = encoding_props rt ps"
  by pat_completeness auto
termination
  by (relation "measure (\<lambda>x. case x of
        Inl (Inl (rt, v)) \<Rightarrow> size v
      | Inl (Inr (rt, xs)) \<Rightarrow> size_list size xs
      | Inr (Inl (rt, es)) \<Rightarrow> size_list (size_prod size size) es
      | Inr (Inr (rt, ps)) \<Rightarrow> size_list (size_prod (\<lambda>k. 0) size) ps)") auto

text \<open>
  The flattened records of a parsed text, at any depth: each with its tag name and its
  payload.
\<close>

definition own_envelope :: "jsval \<Rightarrow> (string \<times> jsval) list" where
  "own_envelope v =
     (if isFlattened v
      then (case GetFlat v of (VStr name, payload) \<Rightarrow> [(name, payload)] | _ \<Rightarrow> [])
      else [])"

fun envelopes :: "jsval \<Rightarrow> (string \<times> jsval) list"
  and envelopes_list :: "jsval list \<Rightarrow> (string \<times> jsval) list"
  and envelopes_props :: "(pkey \<times> jsval) list \<Rightarrow> (string \<times> jsval) list" where
  "envelopes (VObj ps) = own_envelope (VObj ps) @ envelopes_props ps"
| "envelopes (VArr xs ps) = envelopes_list xs"
| "envelopes v = []"
| "envelopes_list [] = []"
| "envelopes_list (x # xs) = envelopes x @ envelopes_list xs"
| "envelopes_props [] = []"
| "envelopes_props ((k, v) # ps) = envelopes v @ envelopes_props ps"

text \<open>
  Decoding the flattened record with this tag name and payload degrades: no decoder is
  registered under the name, or the registered decoder returns \<open>undefined\<close> for the payload.
\<close>

definition passes_through :: "registry \<Rightarrow> string \<times> jsval \<Rightarrow> bool" where
  "passes_through reg e =
     (case getUnpickler reg (fst e) of
        None \<Rightarrow> True
      | Some decode \<Rightarrow> decode (snd e) = Inr VUndefined)"

text \<open>
  A stand-in for the runtime in the closed examples: it writes a time value as its decimal
  numeral, reads it back with the numeral reader, accepts every pattern as it is, and
  gives every object the text of a plain object.
\<close>

definition example_runtime :: runtime where
  "example_runtime =
     \<lparr>toISOString = dec_int, Date_parse = StringToBigInt, RegExp_create = (\<lambda>p f. Some (p, f)),
      method_toString = (\<lambda>v. if v = VUndefined \<or> v = VNull then Inl TypeError
                              else Inr (VStr ''[object Object]''))\<rparr>"

definition example_registry :: registry where
  "example_registry = initial_registry example_runtime"

text \<open>
  The same stand-in with a \<open>RegExp\<close> constructor that rejects the pattern \<open>(\<close>, an
  unterminated group, as every implementation does.
\<close>

definition strict_runtime :: runtime where
  "strict_runtime =
     example_runtime\<lparr>RegExp_create := (\<lambda>p f. if p = ''('' then None else Some (p, f))\<rparr>"

text \<open>
  The custom types of the test suite, and the registry after its three calls of
  \<open>RegisterForPickling\<close>.
\<close>

definition TestSymbol :: sym where "TestSymbol = Symbol_for ''pickler.Test''"
definition Test2Symbol :: sym where "Test2Symbol = Symbol_for ''pickler.Test2''"
definition Test3Symbol :: sym where "Test3Symbol = Symbol_for ''pickler.Test3''"

definition MakeType :: jsval where
  "MakeType =
     VObj [(KStr ''value1'', VStr ''a''), (KStr ''value2'', VRegExp ''a'' ''gi'' []),
           (KSym FreikTypeTag, VSymbol TestSymbol),
           (KStr ''toJSON'', VFun (VStr ''My Test Thingy'') [])]"

definition MakeType2 :: jsval where
  "MakeType2 =
     VObj [(KStr ''value1'', VStr ''a''), (KStr ''value2'', VRegExp ''a'' ''gi'' []),
           (KSym FreikTypeTag, VSymbol Test2Symbol)]"

definition MakeType3 :: "string \<Rightarrow> string \<Rightarrow> jsval" where
  "MakeType3 v1 v2 =
     VObj [(KStr ''value1'', VStr v1), (KStr ''value2'', VStr v2),
           (KStr ''toJSON'',
            VFun (VObj [(KStr ''value1'', VStr v1), (KStr ''value2'', VStr v2)]) []),
           (KSym FreikTypeTag, VSymbol Test3Symbol)]"

definition Type3Unpickle :: FromFlat where
  "Type3Unpickle so =
     (if hasStrField so (KStr ''value1'') \<and> hasStrField so (KStr ''value2'')
      then (case (getField so (KStr ''value1''), getField so (KStr ''value2'')) of
              (VStr v1, VStr v2) \<Rightarrow> Inr (MakeType3 v1 v2)
            | _ \<Rightarrow> Inr VUndefined)
      else Inr VUndefined)"

definition test_registry :: registry where
  "test_registry =
     RegisterForPickling
       (RegisterForPickling
          (RegisterForPickling example_registry TestSymbol (\<lambda>data. Inr MakeType) None)
          Test2Symbol (\<lambda>data. Inr MakeType2) (Some (\<lambda>data. Inr (VStr ''My Test2 Thingy''))))
       Test3Symbol Type3Unpickle None"

text \<open>
  The members of an object of the text after their own decoding, before the reviver is
  asked about the object itself.
\<close>

definition members_revived :: "registry \<Rightarrow> (string \<times> json) list \<Rightarrow> error + (pkey \<times> jsval) list" where
  "members_revived reg ms =
     traverse (\<lambda>(k, t). case Unpickle reg t of Inl e \<Rightarrow> Inl e | Inr v \<Rightarrow> Inr (KStr k, v)) ms"

text \<open>
  Decoding and encoding agree at an object: the reviver makes a value of the object (or
  leaves it as it is), and the replacer, called on that value after its \<open>toJSON\<close>, gives
  the object back.
\<close>

definition node_stable :: "runtime \<Rightarrow> registry \<Rightarrow> jsval \<Rightarrow> bool" where
  "node_stable rt reg obj =
     (case reviver reg obj of
        Inl e \<Rightarrow> False
      | Inr r \<Rightarrow>
          (case apply_toJSON rt r of
             Inl e \<Rightarrow> False
           | Inr val \<Rightarrow> replacer rt reg r val = Inr obj))"

text \<open>
  A text in which decoding and encoding agree at every object; the keys of each object are
  in the order in which \<open>JSON.stringify\<close> writes them.
\<close>

fun stable_text :: "runtime \<Rightarrow> registry \<Rightarrow> json \<Rightarrow> bool"
  and stable_texts :: "runtime \<Rightarrow> registry \<Rightarrow> json list \<Rightarrow> bool"
  and stable_members :: "runtime \<Rightarrow> registry \<Rightarrow> (string \<times> json) list \<Rightarrow> bool" where
  "stable_text rt reg (JArr ts) = stable_texts rt reg ts"
| "stable_text rt reg (JObj ms) =
     (keys_in_order (map fst ms) \<and> stable_members rt reg ms
      \<and> (case members_revived reg ms of
           Inl e \<Rightarrow> False
         | Inr ps \<Rightarrow> node_stable rt reg (VObj ps)))"
| "stable_text rt reg t = True"
| "stable_texts rt reg [] = True"
| "stable_texts rt reg (t # ts) = (stable_text rt reg t \<and> stable_texts rt reg ts)"
| "stable_members rt reg [] = True"
| "stable_members rt reg (m # ms) = (stable_text rt reg (snd m) \<and> stable_members rt reg ms)"

text \<open>The nesting depth of a text.\<close>

fun text_depth :: "json \<Rightarrow> nat"
  and text_depth_list :: "json list \<Rightarrow> nat"
  and text_depth_members :: "(string \<times> json) list \<Rightarrow> nat" where
  "text_depth (JArr ts) = Suc (text_depth_list ts)"
| "text_depth (JObj ms) = Suc (text_depth_members ms)"
| "text_depth t = Suc 0"
| "text_depth_list [] = 0"
| "text_depth_list (t # ts) = max (text_depth t) (text_depth_list ts)"
| "text_depth_members [] = 0"
| "text_depth_members (m # ms) = max (text_depth (snd m)) (text_depth_members ms)"


section \<open>Basic facts\<close>

lemmas typechk_defs =
  hasFieldType_def hasField_def hasStrField_def isObjectNonNull_def isBothOf_def isObject_def
  isNonNullable_def isEmpty_def isString_def isSymbol_def isBigInt_def isFunction_def
  isBoolean_def isIterable_def lookup_def getField_def

lemmas tag_defs =
  FreikTypeTag_def SetTag_def MapTag_def SymbolTag_def RegexTag_def DateTag_def BigIntTag_def
  Symbol_for_def

lemma example_registry_maps [simp]:
  "reg_to example_registry = thePicklers example_runtime"
  "reg_from example_registry = theUnpicklers example_runtime"
  by (simp_all add: example_registry_def initial_registry_def)

lemma encoders_on_their_types [simp]:
  "MapPickle (VMap es []) = Inr (VArr (map (\<lambda>(k, v). VArr [k, v] []) es) [])"
  "SetPickle (VSet xs ps) = Inr (VArr xs [])"
  "RegexPickle (VRegExp src fl []) = Inr (VObj [(KStr ''source'', VStr src), (KStr ''flags'', VStr fl)])"
  "DatePickle rt (VDate (Some ms) []) = Inr (VStr (toISOString rt ms))"
  "DatePickle rt (VDate None []) = Inr VNull"
  by (simp_all add: MapPickle_def SetPickle_def RegexPickle_def DatePickle_def getField_def
      lookup_def)

lemma getPickler_undefined: "getPickler rt reg VUndefined = None"
  by (simp add: getPickler_def typechk_defs builtInPickleTypes_def)

lemma getPickler_function: "getPickler rt reg (VFun r ps) = None"
  by (simp add: getPickler_def typechk_defs builtInPickleTypes_def)

lemma array_index_names [simp]:
  "array_index ''toJSON'' = None"
  "array_index ''@dataType'' = None"
  "array_index ''@dataValue'' = None"
  "array_index ''source'' = None"
  "array_index ''flags'' = None"
  "array_index ''length'' = None"
  by (simp_all add: array_index_def is_digit_def)

lemma depth_numerals:
  "(2::nat) = Suc (Suc 0)"
  "(3::nat) = Suc (Suc (Suc 0))"
  "(4::nat) = Suc (Suc (Suc (Suc 0)))"
  "(6::nat) = Suc (Suc (Suc (Suc (Suc (Suc 0)))))"
  by simp_all

lemmas pickle_eval =
  Pickle_def apply_toJSON_def replacer_def getPickler_def typechk_defs builtInPickleTypes_def
  getPickleHandler_def thePicklers_def tag_defs MakeFlat_def SerializeJSONArray_def
  SerializeJSONObject_def string_props_def depth_numerals

lemmas unpickle_eval =
  reviver_def isFlattened_def GetFlat_def getUnpickler_def getUnpickleHandler_def
  theUnpicklers_def typechk_defs tag_defs MakeFlat_def

lemma getPickler_tagged:
  assumes "isObjectNonNull obj" "lookup obj (KSym FreikTypeTag) = Some (VSymbol s)"
    "reg_to reg s = Some toFlat"
  shows "getPickler rt reg obj = Some (s, toFlat)"
  using assms
  by (simp add: getPickler_def hasFieldType_def hasField_def getField_def isSymbol_def
      getPickleHandler_def)

lemma StringToBigInt_not_a_date: "StringToBigInt ''not a date'' = None"
  by (simp add: StringToBigInt_def trim_def is_ws_def parse_radix_def radix_digit_def)

section \<open>Roots that serialise to nothing\<close>

text \<open>
  Claim C9. \<open>Pickle\<close> is declared to return a string, yet for the root \<open>undefined\<close> and for
  a function that has no \<open>toJSON\<close> of its own it returns \<open>undefined\<close>: the replacer hands
  the root back unchanged and the serialiser produces nothing for it. This holds for every
  registry, since a function never passes \<open>isObjectNonNull\<close> and so its type tag, if any,
  is not looked at.
\<close>

theorem Pickle_without_text:
  "Pickle (Suc n) rt reg VUndefined = Inr None
   \<and> (map_of ps (KStr ''toJSON'') = None \<longrightarrow> Pickle (Suc n) rt reg (VFun r ps) = Inr None)"
  by (simp add: Pickle_def apply_toJSON_def replacer_def getPickler_undefined getPickler_function
      typechk_defs)

theorem Pickle_without_text_witness:
  "Pickle 1 example_runtime example_registry VUndefined = Inr None
   \<and> Pickle 1 example_runtime example_registry (VFun (VStr ''result'') []) = Inr None"
  using Pickle_without_text [of 0 example_runtime example_registry "[]" "VStr ''result''"]
  by simp

section \<open>A type tag without a global key\<close>

text \<open>
  Claim C10. A value carries a type tag whose symbol has a registered encoder but no key
  in the global symbol registry. The replacer finds the encoder, finds no key, and
  returns the value it was given: the encoder is not called, no flattened form is built
  and nothing is thrown. The serialiser then goes on with that value as it would with
  any other.
\<close>

theorem keyless_tag_passes_through:
  assumes "isObjectNonNull obj"
    and "lookup obj (KSym FreikTypeTag) = Some (VSymbol (LocalSym n))"
    and "reg_to reg (LocalSym n) = Some toFlat"
  shows "replacer rt reg obj val = Inr val
    \<and> Pickle (Suc d) rt reg obj =
        (case apply_toJSON rt obj of
           Inl e \<Rightarrow> Inl e
         | Inr val \<Rightarrow> serialize_value (SerializeJSONProperty d rt reg) val)"
proof -
  have r: "replacer rt reg obj v = Inr v" for v
    using getPickler_tagged [OF assms, of rt] by (simp add: replacer_def)
  show ?thesis
    by (simp add: r Pickle_def split: sum.splits)
qed

theorem keyless_tag_passes_through_witness:
  "Pickle 2 example_runtime
     (RegisterForPickling example_registry (LocalSym 0) (\<lambda>v. Inr VUndefined)
        (Some (\<lambda>v. Inl (Error ''encoder called''))))
     (VObj [(KSym FreikTypeTag, VSymbol (LocalSym 0)), (KStr ''a'', VNum (Finite 1))])
   = Inr (Some (JObj [(''a'', JNum 1)]))"
  using keyless_tag_passes_through [of
      "VObj [(KSym FreikTypeTag, VSymbol (LocalSym 0)), (KStr ''a'', VNum (Finite 1))]" 0
      "RegisterForPickling example_registry (LocalSym 0) (\<lambda>v. Inr VUndefined)
        (Some (\<lambda>v. Inl (Error ''encoder called'')))"
      "\<lambda>v. Inl (Error ''encoder called'')" example_runtime VNull 1]
  by (simp add: pickle_eval RegisterForPickling_def setPickleHandler_def setUnpickleHandler_def)

section \<open>The field names of the flattened form\<close>

text \<open>
  Claim C2, as the specification states it: the flattened form of a tagged value has the
  two fields \<open>typeTag\<close> and \<open>typeValue\<close>, and a Set of \<open>a\<close> and \<open>b\<close> inside a list pickles
  to a text with these two names. The code names the fields \<open>@dataType\<close> and \<open>@dataValue\<close>,
  so the text of the specification is not the text \<open>Pickle\<close> writes.
\<close>

theorem envelope_fields_counterexample:
  \<open>Pickle 4 example_runtime example_registry (VArr [VSet [VStr ''a'', VStr ''b''] []] [])
     \<noteq> Inr (Some (JArr [JObj [(''typeTag'', JStr ''freik.Set''),
                               (''typeValue'', JArr [JStr ''a'', JStr ''b''])]]))
   \<and> map_sum id (map_option render)
        (Pickle 4 example_runtime example_registry (VArr [VSet [VStr ''a'', VStr ''b''] []] []))
     \<noteq> Inr (Some ''[{"typeTag":"freik.Set","typeValue":["a","b"]}]'')
   \<and> MakeFlat ''freik.Set'' (VArr [VStr ''a'', VStr ''b''] [])
     \<noteq> VObj [(KStr ''typeTag'', VStr ''freik.Set''),
              (KStr ''typeValue'', VArr [VStr ''a'', VStr ''b''] [])]\<close>
  by (simp add: pickle_eval QuoteJSONString_def quote_char_def)

text \<open>
  Claim C2, amended: whenever an encoder is chosen for a value, its tag has a non-empty
  global key and the encoder returns a payload, the replacer returns the record with
  exactly the two fields \<open>@dataType\<close> (the key) and \<open>@dataValue\<close> (the payload); and the
  Set of \<open>a\<close> and \<open>b\<close> inside a list pickles to the text shown.
\<close>

theorem envelope_fields:
  \<open>(getPickler rt reg original = Some (s, toFlat) \<and> Symbol_keyFor s = Some key \<and> key \<noteq> []
      \<and> toFlat original = Inr payload
     \<longrightarrow> replacer rt reg original val
           = Inr (VObj [(KStr ''@dataType'', VStr key), (KStr ''@dataValue'', payload)]))
   \<and> map_sum id (map_option render)
        (Pickle 4 rt (initial_registry rt) (VArr [VSet [VStr ''a'', VStr ''b''] []] []))
      = Inr (Some ''[{"@dataType":"freik.Set","@dataValue":["a","b"]}]'')\<close>
  by (simp add: pickle_eval initial_registry_def QuoteJSONString_def quote_char_def)

theorem envelope_fields_witness:
  \<open>replacer example_runtime example_registry (VSet [VStr ''a''] []) VNull
     = Inr (VObj [(KStr ''@dataType'', VStr ''freik.Set''), (KStr ''@dataValue'', VArr [VStr ''a''] [])])
   \<and> map_sum id (map_option render)
        (Pickle 4 example_runtime (initial_registry example_runtime)
           (VArr [VSet [VStr ''a'', VStr ''b''] []] []))
      = Inr (Some ''[{"@dataType":"freik.Set","@dataValue":["a","b"]}]'')\<close>
  using envelope_fields [of example_runtime example_registry "VSet [VStr ''a''] []" SetTag
      SetPickle "''freik.Set''" "VArr [VStr ''a''] []" VNull]
  by (simp add: getPickler_def typechk_defs builtInPickleTypes_def getPickleHandler_def
      thePicklers_def tag_defs)

section \<open>The Date decoder on a string that is not a date\<close>

text \<open>
  Claim C5 asks the Date decoder for \<open>undefined\<close> when the string does not parse. The
  decoder wraps \<open>new Date(val)\<close> in a \<open>try\<close> whose \<open>catch\<close> returns \<open>undefined\<close>, but the
  constructor does not throw: on every string the decoder returns a Date, and on a string
  the runtime cannot parse it returns the Invalid Date, which the reviver then puts in the
  place of the flattened record.
\<close>

theorem DateUnpickle_unparsable:
  "DateUnpickle rt (VStr s) = Inr (VDate (Date_parse rt s) [])
   \<and> (Date_parse rt s = None \<longrightarrow>
        DateUnpickle rt (VStr s) = Inr (VDate None [])
        \<and> reviver (initial_registry rt) (MakeFlat ''freik.Date'' (VStr s)) = Inr (VDate None []))"
  by (simp add: DateUnpickle_def new_Date_def unpickle_eval initial_registry_def)

theorem DateUnpickle_unparsable_witness:
  "DateUnpickle example_runtime (VStr ''not a date'') = Inr (VDate None [])
   \<and> reviver (initial_registry example_runtime) (MakeFlat ''freik.Date'' (VStr ''not a date''))
     = Inr (VDate None [])"
  using DateUnpickle_unparsable [of example_runtime "''not a date''"]
  by (simp add: example_runtime_def StringToBigInt_not_a_date)

section \<open>The order in which the encoder is chosen\<close>

lemma builtInPickler_find:
  "builtInPickler reg obj l =
     (case find (\<lambda>(checker, symb). checker obj \<and> reg_to reg symb \<noteq> None) l of
        None \<Rightarrow> None
      | Some (checker, symb) \<Rightarrow> map_option (Pair symb) (reg_to reg symb))"
  by (induction l) (auto simp: getPickleHandler_def split: option.splits if_splits)

text \<open>
  Claim C6, as the specification states it: a type tag with a registered encoder wins, and
  in every other case the first built-in check that holds decides encoder and tag. A Date
  carrying a type tag without a registered encoder is such an other case, and it inherits
  \<open>toJSON\<close>: \<open>getPickler\<close> answers with the value's own tag and the \<open>toJSON\<close> encoder, not
  with the Date tag the built-in checks would give.
\<close>

theorem getPickler_priority_counterexample:
  "isDate (VDate (Some 0) [(KSym FreikTypeTag, VSymbol (GlobalSym ''my.Tag''))])
   \<and> reg_to example_registry (GlobalSym ''my.Tag'') = None
   \<and> map_option fst (getPickler example_runtime example_registry
        (VDate (Some 0) [(KSym FreikTypeTag, VSymbol (GlobalSym ''my.Tag''))]))
     = Some (GlobalSym ''my.Tag'')
   \<and> map_option fst (builtInPickler example_registry
        (VDate (Some 0) [(KSym FreikTypeTag, VSymbol (GlobalSym ''my.Tag''))]) builtInPickleTypes)
     = Some DateTag
   \<and> GlobalSym ''my.Tag'' \<noteq> DateTag"
  by (simp add: getPickler_def typechk_defs tag_defs thePicklers_def builtInPickleTypes_def
      getPickleHandler_def)

text \<open>
  Claim C6, amended: the choice has three steps. A symbol-valued type tag with a registered
  encoder wins over every built-in check, whatever the value is. A symbol-valued type tag
  without a registered encoder, on a value that has a \<open>toJSON\<close> function, selects that
  \<open>toJSON\<close> under the value's own tag, again before any built-in check. In every remaining
  case the built-in checks are tried in the order Map, Set, Symbol, RegExp, Date, BigInt,
  and the first one that holds (and has an encoder registered) gives encoder and tag.
\<close>

theorem getPickler_priority:
  "(hasFieldType obj (KSym FreikTypeTag) isSymbol \<and> getField obj (KSym FreikTypeTag) = VSymbol s
      \<and> reg_to reg s = Some p
     \<longrightarrow> getPickler rt reg obj = Some (s, p))
   \<and> (hasFieldType obj (KSym FreikTypeTag) isSymbol \<and> getField obj (KSym FreikTypeTag) = VSymbol s
      \<and> reg_to reg s = None \<and> hasFieldType obj (KStr ''toJSON'') isFunction
     \<longrightarrow> getPickler rt reg obj = Some (s, toJSON_pickler rt))
   \<and> (\<not> hasFieldType obj (KSym FreikTypeTag) isSymbol
      \<or> getField obj (KSym FreikTypeTag) = VSymbol s \<and> reg_to reg s = None
        \<and> \<not> hasFieldType obj (KStr ''toJSON'') isFunction
     \<longrightarrow> getPickler rt reg obj =
          (case find (\<lambda>(checker, symb). checker obj \<and> reg_to reg symb \<noteq> None)
                  [(isMap, MapTag), (isSet, SetTag), (isSymbol, SymbolTag),
                   (isRegex, RegexTag), (isDate, DateTag), (isBigInt, BigIntTag)] of
             None \<Rightarrow> None
           | Some (checker, symb) \<Rightarrow> map_option (Pair symb) (reg_to reg symb)))"
  unfolding builtInPickleTypes_def [symmetric] builtInPickler_find [symmetric]
  by (auto simp: getPickler_def getPickleHandler_def)

theorem getPickler_priority_witness:
  "getPickler example_runtime
     (RegisterForPickling example_registry (GlobalSym ''my.Tag'') (\<lambda>v. Inr VUndefined)
        (Some (\<lambda>v. Inr (VStr ''mine''))))
     (VMap [] [(KSym FreikTypeTag, VSymbol (GlobalSym ''my.Tag''))])
     = Some (GlobalSym ''my.Tag'', \<lambda>v. Inr (VStr ''mine''))
   \<and> getPickler example_runtime example_registry
       (VMap [] [(KSym FreikTypeTag, VSymbol (GlobalSym ''my.Tag'')),
                 (KStr ''toJSON'', VFun (VStr ''self'') [])])
     = Some (GlobalSym ''my.Tag'', toJSON_pickler example_runtime)
   \<and> getPickler example_runtime example_registry
       (VMap [] [(KSym FreikTypeTag, VSymbol (GlobalSym ''my.Tag''))])
     = Some (MapTag, MapPickle)"
  using getPickler_priority [of
      "VMap [] [(KSym FreikTypeTag, VSymbol (GlobalSym ''my.Tag''))]" "GlobalSym ''my.Tag''"
      "RegisterForPickling example_registry (GlobalSym ''my.Tag'') (\<lambda>v. Inr VUndefined)
        (Some (\<lambda>v. Inr (VStr ''mine'')))"
      "\<lambda>v. Inr (VStr ''mine'')" example_runtime]
    getPickler_priority [of
      "VMap [] [(KSym FreikTypeTag, VSymbol (GlobalSym ''my.Tag'')),
                (KStr ''toJSON'', VFun (VStr ''self'') [])]" "GlobalSym ''my.Tag''"
      example_registry "\<lambda>v. Inr VNull" example_runtime]
    getPickler_priority [of
      "VMap [] [(KSym FreikTypeTag, VSymbol (GlobalSym ''my.Tag''))]" "GlobalSym ''my.Tag''"
      example_registry "\<lambda>v. Inr VNull" example_runtime]
  by (simp add: typechk_defs tag_defs thePicklers_def RegisterForPickling_def
      setPickleHandler_def setUnpickleHandler_def)

section \<open>Symbols without a global key\<close>

lemma traverse_error: "x \<in> set xs \<Longrightarrow> isl (f x) \<Longrightarrow> isl (traverse f xs)"
  by (induction xs) (auto split: sum.splits)

lemma getPickler_keyless_symbol:
  "reg_to reg SymbolTag = Some SymbolPickle \<Longrightarrow>
   getPickler rt reg (VSymbol (LocalSym n)) = Some (SymbolTag, SymbolPickle)"
  by (simp add: getPickler_def typechk_defs builtInPickleTypes_def getPickleHandler_def)

lemma replacer_keyless_symbol:
  "reg_to reg SymbolTag = Some SymbolPickle \<Longrightarrow>
   replacer rt reg (VSymbol (LocalSym n)) val
     = Inl (Error ''Unable to get a key for a symbol for pickling'')"
  by (simp add: replacer_def getPickler_keyless_symbol tag_defs)

lemma serialize_keyless_symbol:
  "reg_to reg SymbolTag = Some SymbolPickle \<Longrightarrow>
   SerializeJSONProperty (Suc d) rt reg (VSymbol (LocalSym n))
     = Inl (Error ''Unable to get a key for a symbol for pickling'')"
  by (simp add: apply_toJSON_def typechk_defs replacer_keyless_symbol)

lemma serialize_keyless_symbol_isl:
  "reg_to reg SymbolTag = Some SymbolPickle \<Longrightarrow>
   isl (SerializeJSONProperty d rt reg (VSymbol (LocalSym n)))"
  by (cases d) (simp_all add: serialize_keyless_symbol del: SerializeJSONProperty.simps(2))

lemma getPickler_plain_array: "getPickler rt reg (VArr xs []) = None"
  by (simp add: getPickler_def typechk_defs builtInPickleTypes_def)

lemma serialize_plain_array:
  "SerializeJSONProperty (Suc d) rt reg (VArr xs [])
     = SerializeJSONArray (SerializeJSONProperty d rt reg) xs"
  by (simp add: apply_toJSON_def typechk_defs replacer_def getPickler_plain_array)

lemma serialize_array_error:
  "x \<in> set xs \<Longrightarrow> isl (SerializeJSONProperty (d - 1) rt reg x) \<Longrightarrow>
   isl (SerializeJSONProperty d rt reg (VArr xs []))"
  by (cases d) (auto simp: serialize_plain_array SerializeJSONArray_def
      simp del: SerializeJSONProperty.simps(2)
      dest: traverse_error [where f = "SerializeJSONProperty (d - 1) rt reg"] split: sum.splits)


lemma string_keyed_no_symbol: "string_keyed ps \<Longrightarrow> map_of ps (KSym y) = None"
  by (induction ps rule: string_keyed.induct) simp_all

lemma string_keyed_props: "string_keyed ps \<Longrightarrow> map (\<lambda>(k, v). (KStr k, v)) (string_props ps) = ps"
  by (induction ps rule: string_keyed.induct) (simp_all add: string_props_def)

lemma getPickler_plain_object: "string_keyed ps \<Longrightarrow> getPickler rt reg (VObj ps) = None"
  by (simp add: getPickler_def typechk_defs builtInPickleTypes_def string_keyed_no_symbol)

lemma serialize_plain_object:
  "string_keyed ps \<Longrightarrow> \<not> hasFieldType (VObj ps) (KStr ''toJSON'') isFunction \<Longrightarrow>
   SerializeJSONProperty (Suc d) rt reg (VObj ps)
     = SerializeJSONObject (SerializeJSONProperty d rt reg) ps"
  by (auto simp: apply_toJSON_def typechk_defs replacer_def getPickler_plain_object
      split: option.splits)

lemma string_props_member: "(KStr k, v) \<in> set ps \<Longrightarrow> (k, v) \<in> set (string_props ps)"
  by (induction ps) (auto simp: string_props_def split: pkey.splits)

lemma serialize_object_error:
  "(KStr k, x) \<in> set ps \<Longrightarrow> isl (ser x) \<Longrightarrow> isl (SerializeJSONObject ser ps)"
  using traverse_error [of "(k, x)" "string_props ps"
      "\<lambda>(k, v). case ser v of Inl e \<Rightarrow> Inl e | Inr t \<Rightarrow> Inr (k, t)"]
  by (cases "ser x") (auto simp: SerializeJSONObject_def string_props_member split: sum.splits)

lemma serialize_Set:
  "reg_to reg SetTag = Some SetPickle \<Longrightarrow>
   SerializeJSONProperty (Suc d) rt reg (VSet xs [])
     = SerializeJSONObject (SerializeJSONProperty d rt reg)
         [(KStr ''@dataType'', VStr ''freik.Set''), (KStr ''@dataValue'', VArr xs [])]"
  by (simp add: apply_toJSON_def typechk_defs replacer_def getPickler_def builtInPickleTypes_def
      getPickleHandler_def tag_defs MakeFlat_def)

lemma serialize_Map:
  "reg_to reg MapTag = Some MapPickle \<Longrightarrow>
   SerializeJSONProperty (Suc d) rt reg (VMap es [])
     = SerializeJSONObject (SerializeJSONProperty d rt reg)
         [(KStr ''@dataType'', VStr ''freik.Map''),
          (KStr ''@dataValue'', VArr (map (\<lambda>(k, v). VArr [k, v] []) es) [])]"
  by (simp add: apply_toJSON_def typechk_defs replacer_def getPickler_def builtInPickleTypes_def
      getPickleHandler_def tag_defs MakeFlat_def)

text \<open>
  Claim C4, as the specification states it: a symbol without a global key anywhere in the
  input raises an error. The serialiser only encodes what it visits. A symbol held by an
  object whose \<open>toJSON\<close> result takes the object's place is never visited, and neither is a
  symbol stored under a symbol key, such as the type tag itself: both inputs pickle to a
  text and nothing is thrown.
\<close>

theorem keyless_symbol_aborts_counterexample:
  "Pickle 2 example_runtime example_registry
     (VObj [(KStr ''s'', VSymbol (LocalSym 0)), (KStr ''toJSON'', VFun (VStr ''x'') [])])
     = Inr (Some (JStr ''x''))
   \<and> Pickle 2 example_runtime example_registry (VObj [(KSym FreikTypeTag, VSymbol (LocalSym 0))])
     = Inr (Some (JObj []))"
  by (simp add: pickle_eval)


text \<open>
  Claim C4, amended: with the built-in Symbol encoder registered, encoding a symbol without
  a global key at a node the traversal visits throws the error of \<open>SymbolPickle\<close>, and an
  error at a visited node aborts the encode of everything around it: of the array holding
  the node, of the plain object (string keys, no \<open>toJSON\<close> function) holding it as a
  property value, of the Set holding it as an element and of the Map holding it as a key
  or a value. No text is produced. What the traversal does not visit is not encoded and
  raises nothing.
\<close>

theorem keyless_symbol_aborts:
  assumes "reg_to reg SymbolTag = Some SymbolPickle"
  shows "Pickle (Suc d) rt reg (VSymbol (LocalSym n))
      = Inl (Error ''Unable to get a key for a symbol for pickling'')
    \<and> (x \<in> set xs \<and> isl (Pickle d rt reg x) \<longrightarrow> isl (Pickle (Suc d) rt reg (VArr xs [])))
    \<and> (string_keyed ps \<and> \<not> hasFieldType (VObj ps) (KStr ''toJSON'') isFunction
        \<and> (KStr k, x) \<in> set ps \<and> isl (Pickle d rt reg x)
       \<longrightarrow> isl (Pickle (Suc d) rt reg (VObj ps)))
    \<and> (reg_to reg SetTag = Some SetPickle \<and> x \<in> set xs \<and> isl (Pickle d rt reg x)
       \<longrightarrow> isl (Pickle (Suc (Suc d)) rt reg (VSet xs [])))
    \<and> (reg_to reg MapTag = Some MapPickle \<and> ((x, y) \<in> set es \<or> (y, x) \<in> set es)
        \<and> isl (Pickle d rt reg x)
       \<longrightarrow> isl (Pickle (Suc (Suc (Suc d))) rt reg (VMap es [])))"
proof (intro conjI impI)
  show "Pickle (Suc d) rt reg (VSymbol (LocalSym n))
      = Inl (Error ''Unable to get a key for a symbol for pickling'')"
    unfolding Pickle_def by (rule serialize_keyless_symbol [OF assms])
next
  assume "x \<in> set xs \<and> isl (Pickle d rt reg x)"
  then show "isl (Pickle (Suc d) rt reg (VArr xs []))"
    unfolding Pickle_def using serialize_array_error [of x xs "Suc d" rt reg] by simp
next
  assume "string_keyed ps \<and> \<not> hasFieldType (VObj ps) (KStr ''toJSON'') isFunction
        \<and> (KStr k, x) \<in> set ps \<and> isl (Pickle d rt reg x)"
  then show "isl (Pickle (Suc d) rt reg (VObj ps))"
    unfolding Pickle_def
    using serialize_object_error [of k x ps "SerializeJSONProperty d rt reg"]
    by (simp add: serialize_plain_object del: SerializeJSONProperty.simps(2))
next
  assume a: "reg_to reg SetTag = Some SetPickle \<and> x \<in> set xs \<and> isl (Pickle d rt reg x)"
  then have "isl (SerializeJSONProperty (Suc d) rt reg (VArr xs []))"
    unfolding Pickle_def using serialize_array_error [of x xs "Suc d" rt reg] by simp
  then show "isl (Pickle (Suc (Suc d)) rt reg (VSet xs []))"
    unfolding Pickle_def
    using a serialize_object_error [of "''@dataValue''" "VArr xs []" _
        "SerializeJSONProperty (Suc d) rt reg"]
    by (simp add: serialize_Set del: SerializeJSONProperty.simps(2))
next
  assume a: "reg_to reg MapTag = Some MapPickle \<and> ((x, y) \<in> set es \<or> (y, x) \<in> set es)
        \<and> isl (Pickle d rt reg x)"
  then obtain k v where kv: "(k, v) \<in> set es" "x \<in> set [k, v]"
    by auto
  have "isl (SerializeJSONProperty (Suc d) rt reg (VArr [k, v] []))"
    using a kv(2) serialize_array_error [of x "[k, v]" "Suc d" rt reg]
    unfolding Pickle_def by simp
  moreover have "VArr [k, v] [] \<in> set (map (\<lambda>(k, v). VArr [k, v] []) es)"
    using kv(1) by force
  ultimately have "isl (SerializeJSONProperty (Suc (Suc d)) rt reg
      (VArr (map (\<lambda>(k, v). VArr [k, v] []) es) []))"
    using serialize_array_error [of "VArr [k, v] []" _ "Suc (Suc d)" rt reg] by simp
  then show "isl (Pickle (Suc (Suc (Suc d))) rt reg (VMap es []))"
    unfolding Pickle_def
    using a serialize_object_error [of "''@dataValue''" _ _
        "SerializeJSONProperty (Suc (Suc d)) rt reg"]
    by (simp add: serialize_Map del: SerializeJSONProperty.simps(2))
qed

theorem keyless_symbol_aborts_witness:
  "Pickle 1 example_runtime example_registry (VSymbol (LocalSym 0))
      = Inl (Error ''Unable to get a key for a symbol for pickling'')
   \<and> isl (Pickle 2 example_runtime example_registry (VArr [VNull, VSymbol (LocalSym 0)] []))
   \<and> isl (Pickle 2 example_runtime example_registry (VObj [(KStr ''a'', VSymbol (LocalSym 0))]))
   \<and> isl (Pickle 3 example_runtime example_registry (VSet [VNull, VSymbol (LocalSym 0)] []))
   \<and> isl (Pickle 4 example_runtime example_registry (VMap [(VSymbol (LocalSym 0), VNull)] []))"
proof -
  have r: "reg_to example_registry SymbolTag = Some SymbolPickle"
    by (simp add: thePicklers_def tag_defs)
  have b: "Pickle (Suc 0) example_runtime example_registry (VSymbol (LocalSym 0))
      = Inl (Error ''Unable to get a key for a symbol for pickling'')"
    using keyless_symbol_aborts [OF r, where d = 0 and rt = example_runtime and n = 0] by simp
  show ?thesis
    using b keyless_symbol_aborts [OF r, where d = "Suc 0" and rt = example_runtime and n = 0
        and x = "VSymbol (LocalSym 0)" and xs = "[VNull, VSymbol (LocalSym 0)]"
        and ps = "[(KStr ''a'', VSymbol (LocalSym 0))]" and k = "''a''" and y = VNull
        and es = "[(VSymbol (LocalSym 0), VNull)]"]
    by (simp add: thePicklers_def tag_defs typechk_defs depth_numerals)
qed

section \<open>Decoding unknown tags\<close>

lemma JSON_values_map: "JSON_values ts = map JSON_value ts"
  by (induction ts) simp_all

lemma JSON_members_map: "JSON_members ms = map (\<lambda>m. (fst m, JSON_value (snd m))) ms"
  by (induction ms) simp_all

lemma JSON_value_defined: "JSON_value t \<noteq> VUndefined"
  by (cases t) simp_all

lemma insert_index_member:
  "p \<in> set (insert_index i k v ps) \<Longrightarrow> p \<in> set ps \<or> p = (KStr k, v)"
  by (induction i k v ps rule: insert_index.induct) (auto split: option.splits if_splits)

lemma CreateDataProperty_member:
  "p \<in> set (CreateDataProperty ps k v) \<Longrightarrow> p \<in> set ps \<or> p = (KStr k, v)"
  by (auto simp: CreateDataProperty_def dest: insert_index_member split: if_splits option.splits)

lemma build_member:
  "p \<in> set (foldl (\<lambda>ps (k, v). CreateDataProperty ps k v) acc kvs) \<Longrightarrow>
   p \<in> set acc \<or> (\<exists>k v. p = (KStr k, v) \<and> (k, v) \<in> set kvs)"
proof (induction kvs arbitrary: acc)
  case Nil
  then show ?case by simp
next
  case (Cons kv kvs)
  obtain k v where kv: "kv = (k, v)" by (cases kv)
  from Cons.prems have "p \<in> set (foldl (\<lambda>ps (k, v). CreateDataProperty ps k v)
      (CreateDataProperty acc k v) kvs)"
    by (simp add: kv)
  from Cons.IH [OF this] show ?case
    using CreateDataProperty_member [of p acc k v] by (auto simp: kv)
qed

lemma reviver_not_object: "\<not> isObjectNonNull v \<Longrightarrow> reviver reg v = Inr v"
  by (simp add: reviver_def isFlattened_def hasStrField_def hasFieldType_def hasField_def)

lemma reviver_array: "reviver reg (VArr xs []) = Inr (VArr xs [])"
  by (simp add: reviver_def isFlattened_def typechk_defs)

lemma Internalize_elements_id:
  "(\<And>x. x \<in> set xs \<Longrightarrow> InternalizeJSONProperty reg x = Inr x) \<Longrightarrow>
   Internalize_elements reg xs = Inr xs"
  by (induction xs) simp_all

lemma Internalize_props_id:
  "(\<And>k v. (KStr k, v) \<in> set ps \<Longrightarrow> InternalizeJSONProperty reg v = Inr v \<and> v \<noteq> VUndefined) \<Longrightarrow>
   Internalize_props reg ps = Inr ps"
proof (induction ps)
  case Nil
  then show ?case by simp
next
  case (Cons p ps)
  obtain k v where p: "p = (k, v)" by (cases p)
  have ih: "Internalize_props reg ps = Inr ps"
    using Cons by auto
  show ?case
  proof (cases k)
    case (KStr x)
    then have "InternalizeJSONProperty reg v = Inr v \<and> v \<noteq> VUndefined"
      using Cons.prems [of x v] by (simp add: p)
    then show ?thesis by (simp add: p KStr ih)
  next
    case (KSym y)
    then show ?thesis by (simp add: p ih)
  qed
qed

lemma reviver_passes:
  assumes "isFlattened v" "GetFlat v = (VStr name, payload)" "passes_through reg (name, payload)"
  shows "reviver reg v = Inr v"
  using assms by (auto simp: reviver_def passes_through_def split: option.splits)

lemma envelopes_props_member:
  "(k, v) \<in> set ps \<Longrightarrow> set (envelopes v) \<subseteq> set (envelopes_props ps)"
  by (induction ps) auto

lemma envelopes_list_member:
  "x \<in> set xs \<Longrightarrow> set (envelopes x) \<subseteq> set (envelopes_list xs)"
  by (induction xs) auto

lemma envelopes_props_object: "e \<in> set (envelopes_props ps) \<Longrightarrow> e \<in> set (envelopes (VObj ps))"
  by simp

lemma own_envelope_flattened:
  "isFlattened v \<Longrightarrow> GetFlat v = (VStr name, payload) \<Longrightarrow> own_envelope v = [(name, payload)]"
  by (simp add: own_envelope_def)

lemma reviver_object_passes:
  assumes "\<And>e. e \<in> set (envelopes (VObj ps)) \<Longrightarrow> passes_through reg e"
  shows "reviver reg (VObj ps) = Inr (VObj ps)"
proof (cases "isFlattened (VObj ps)")
  case False
  then show ?thesis by (simp add: reviver_def)
next
  case True
  then obtain name where n: "getField (VObj ps) (KStr ''@dataType'') = VStr name"
    by (cases "getField (VObj ps) (KStr ''@dataType'')")
       (auto simp: isFlattened_def hasStrField_def hasFieldType_def isString_def)
  then have "passes_through reg (name, getField (VObj ps) (KStr ''@dataValue''))"
    using assms own_envelope_flattened [OF True, of name "getField (VObj ps) (KStr ''@dataValue'')"]
    by (simp add: GetFlat_def)
  then show ?thesis
    using True n
      reviver_passes [of "VObj ps" name "getField (VObj ps) (KStr ''@dataValue'')" reg]
    by (simp add: GetFlat_def)
qed

lemma Unpickle_passes_aux:
  "\<forall>e \<in> set (envelopes (JSON_value t)). passes_through reg e \<Longrightarrow>
   InternalizeJSONProperty reg (JSON_value t) = Inr (JSON_value t)"
proof (induction t)
  case (JArr ts)
  have "Internalize_elements reg (map JSON_value ts) = Inr (map JSON_value ts)"
  proof (rule Internalize_elements_id)
    fix x assume "x \<in> set (map JSON_value ts)"
    then obtain t where t: "t \<in> set ts" "x = JSON_value t" by auto
    have "set (envelopes x) \<subseteq> set (envelopes_list (map JSON_value ts))"
      using t envelopes_list_member [of x "map JSON_value ts"] by simp
    then have "\<forall>e \<in> set (envelopes (JSON_value t)). passes_through reg e"
      using JArr.prems t(2) by (auto simp: JSON_values_map)
    then show "InternalizeJSONProperty reg x = Inr x"
      using JArr.IH [OF t(1)] t(2) by simp
  qed
  then show ?case by (simp add: JSON_values_map reviver_array)
next
  case (JObj ms)
  let ?ps = "foldl (\<lambda>ps (k, v). CreateDataProperty ps k v) [] (JSON_members ms)"
  have "Internalize_props reg ?ps = Inr ?ps"
  proof (rule Internalize_props_id)
    fix k v assume kv: "(KStr k, v) \<in> set ?ps"
    then have "(k, v) \<in> set (JSON_members ms)"
      using build_member [of "(KStr k, v)" "[]" "JSON_members ms"] by auto
    then obtain m where m: "m \<in> set ms" "v = JSON_value (snd m)"
      by (auto simp: JSON_members_map)
    have "set (envelopes v) \<subseteq> set (envelopes_props ?ps)"
      using kv by (rule envelopes_props_member)
    then have "set (envelopes v) \<subseteq> set (envelopes (VObj ?ps))"
      using envelopes_props_object [of _ ?ps] by blast
    then have "\<forall>e \<in> set (envelopes v). passes_through reg e"
      using JObj.prems unfolding JSON_value.simps by blast
    then have "\<forall>e \<in> set (envelopes (JSON_value (snd m))). passes_through reg e"
      by (simp add: m(2))
    moreover have "snd m \<in> Basic_BNFs.snds m"
      by (cases m) simp
    ultimately have "InternalizeJSONProperty reg v = Inr v"
      using JObj.IH [OF m(1), of "snd m"] m(2) by simp
    then show "InternalizeJSONProperty reg v = Inr v \<and> v \<noteq> VUndefined"
      by (simp add: m(2) JSON_value_defined)
  qed
  moreover have "reviver reg (VObj ?ps) = Inr (VObj ?ps)"
    using JObj.prems reviver_object_passes [of ?ps reg] by simp
  ultimately show ?case by simp
next
  case JNull
  show ?case by (simp add: reviver_not_object typechk_defs)
next
  case (JBool b)
  show ?case by (simp add: reviver_not_object typechk_defs)
next
  case (JNum i)
  show ?case by (simp add: reviver_not_object typechk_defs)
next
  case (JStr s)
  show ?case by (simp add: reviver_not_object typechk_defs)
qed


lemmas parse_eval =
  CreateDataProperty_def own_envelope_def passes_through_def unpickle_eval
  MapUnpickle_def SetUnpickle_def

subsection \<open>Where decoding throws\<close>

lemma reviver_error:
  "reviver reg v = Inl e \<Longrightarrow>
   \<exists>name decode payload. getUnpickler reg name = Some decode \<and> decode payload = Inl e"
  by (auto simp: reviver_def split: if_splits prod.splits jsval.splits option.splits sum.splits)

lemma Internalize_error:
  "InternalizeJSONProperty reg v = Inl e \<Longrightarrow>
     \<exists>name decode payload. getUnpickler reg name = Some decode \<and> decode payload = Inl e"
  "Internalize_elements reg xs = Inl e \<Longrightarrow>
     \<exists>name decode payload. getUnpickler reg name = Some decode \<and> decode payload = Inl e"
  "Internalize_props reg ps = Inl e \<Longrightarrow>
     \<exists>name decode payload. getUnpickler reg name = Some decode \<and> decode payload = Inl e"
  by (induction reg v and reg xs and reg ps
      rule: InternalizeJSONProperty_Internalize_elements_Internalize_props.induct)
     (auto split: sum.splits, (drule reviver_error, blast)+)

lemma built_in_decoder_error:
  assumes "getUnpickler (initial_registry rt) name = Some decode" "decode payload = Inl e"
  shows "e = SyntaxError \<and> (\<exists>p f. RegExp_create rt p f = None)"
  using assms
  by (auto simp: getUnpickler_def getUnpickleHandler_def initial_registry_def theUnpicklers_def
      tag_defs MapUnpickle_def SetUnpickle_def SymbolUnpickle_def RegexUnpickle_def
      DateUnpickle_def BigIntUnpickle_def new_RegExp_def
      split: if_splits jsval.splits option.splits prod.splits) blast

text \<open>
  Claim C3 says that decoding degrades and never throws. At a node of the flattened shape
  whose tag has no decoder, or whose decoder returns \<open>undefined\<close>, the reviver returns the
  record unchanged, and the reviver raises nothing of its own: an error of \<open>Unpickle\<close> is
  the error of a registered decoder. Of the built-in decoders, \<open>DateUnpickle\<close> and
  \<open>BigIntUnpickle\<close> catch what their constructors throw, and \<open>MapUnpickle\<close>, \<open>SetUnpickle\<close>
  and \<open>SymbolUnpickle\<close> call nothing that throws. \<open>RegexUnpickle\<close> calls
  \<open>new RegExp(val.source, val.flags)\<close> unguarded: a record tagged \<open>freik.RegExp\<close> whose
  pattern or flags the constructor rejects makes \<open>Unpickle\<close> throw a \<open>SyntaxError\<close>, and
  this is the only error that decoding with the built-in registry raises.
\<close>

theorem RegexUnpickle_throws:
  "(RegExp_create rt src fl = None \<longrightarrow>
      RegexUnpickle rt (VObj [(KStr ''source'', VStr src), (KStr ''flags'', VStr fl)])
        = Inl SyntaxError
      \<and> Unpickle (initial_registry rt)
          (JObj [(''@dataType'', JStr ''freik.RegExp''),
                 (''@dataValue'', JObj [(''source'', JStr src), (''flags'', JStr fl)])])
        = Inl SyntaxError)
   \<and> (Unpickle (initial_registry rt) text = Inl e
      \<longrightarrow> e = SyntaxError \<and> (\<exists>p f. RegExp_create rt p f = None))
   \<and> (Unpickle reg text = Inl e
      \<longrightarrow> (\<exists>name decode payload. getUnpickler reg name = Some decode \<and> decode payload = Inl e))
   \<and> (isFlattened v \<and> GetFlat v = (VStr name, payload)
        \<and> (getUnpickler reg name = None
           \<or> (\<exists>decode. getUnpickler reg name = Some decode \<and> decode payload = Inr VUndefined))
      \<longrightarrow> reviver reg v = Inr v)"
proof (intro conjI impI)
  assume "RegExp_create rt src fl = None"
  then show "RegexUnpickle rt (VObj [(KStr ''source'', VStr src), (KStr ''flags'', VStr fl)])
      = Inl SyntaxError"
    by (simp add: RegexUnpickle_def new_RegExp_def typechk_defs)
next
  assume "RegExp_create rt src fl = None"
  then show "Unpickle (initial_registry rt)
          (JObj [(''@dataType'', JStr ''freik.RegExp''),
                 (''@dataValue'', JObj [(''source'', JStr src), (''flags'', JStr fl)])])
        = Inl SyntaxError"
    by (simp add: Unpickle_def CreateDataProperty_def unpickle_eval initial_registry_def
        RegexUnpickle_def new_RegExp_def)
next
  assume a: "Unpickle (initial_registry rt) text = Inl e"
  then obtain name decode payload where
    "getUnpickler (initial_registry rt) name = Some decode" "decode payload = Inl e"
    unfolding Unpickle_def using Internalize_error(1) by blast
  then show "e = SyntaxError" "\<exists>p f. RegExp_create rt p f = None"
    using built_in_decoder_error by blast+
next
  assume "Unpickle reg text = Inl e"
  then show "\<exists>name decode payload. getUnpickler reg name = Some decode \<and> decode payload = Inl e"
    unfolding Unpickle_def by (rule Internalize_error(1))
next
  assume a: "isFlattened v \<and> GetFlat v = (VStr name, payload)
      \<and> (getUnpickler reg name = None
         \<or> (\<exists>decode. getUnpickler reg name = Some decode \<and> decode payload = Inr VUndefined))"
  then show "reviver reg v = Inr v"
    by (auto simp: reviver_def)
qed

theorem RegexUnpickle_throws_witness:
  "RegexUnpickle strict_runtime (VObj [(KStr ''source'', VStr ''(''), (KStr ''flags'', VStr '''')])
     = Inl SyntaxError
   \<and> Unpickle (initial_registry strict_runtime)
       (JObj [(''@dataType'', JStr ''freik.RegExp''),
              (''@dataValue'', JObj [(''source'', JStr ''(''), (''flags'', JStr '''')])])
     = Inl SyntaxError
   \<and> (\<exists>p f. RegExp_create strict_runtime p f = None)
   \<and> (\<exists>name decode payload.
         getUnpickler (initial_registry strict_runtime) name = Some decode
         \<and> decode payload = Inl SyntaxError)
   \<and> reviver (initial_registry strict_runtime)
       (VObj [(KStr ''@dataType'', VStr ''unknown.Tag''), (KStr ''@dataValue'', VNull)])
     = Inr (VObj [(KStr ''@dataType'', VStr ''unknown.Tag''), (KStr ''@dataValue'', VNull)])"
  using RegexUnpickle_throws [of strict_runtime "''(''" "''''"
      "JObj [(''@dataType'', JStr ''freik.RegExp''),
              (''@dataValue'', JObj [(''source'', JStr ''(''), (''flags'', JStr '''')])]"
      SyntaxError "initial_registry strict_runtime"
      "VObj [(KStr ''@dataType'', VStr ''unknown.Tag''), (KStr ''@dataValue'', VNull)]"
      "''unknown.Tag''" VNull]
  by (simp add: strict_runtime_def example_runtime_def unpickle_eval initial_registry_def)

section \<open>Reading back a decimal numeral\<close>

lemma less_10_cases:
  "d < 10 \<Longrightarrow> d = 0 \<or> d = 1 \<or> d = 2 \<or> d = 3 \<or> d = 4 \<or> d = 5 \<or> d = 6 \<or> d = 7 \<or> d = 8 \<or> d = (9::nat)"
  by presburger

lemma digit_char_digit: "d < 10 \<Longrightarrow> is_digit (digit_char d) \<and> digit_val (digit_char d) = d"
  by (drule less_10_cases) (auto simp: is_digit_def digit_val_def digit_char_def)

lemma is_digit_radix: "is_digit c \<Longrightarrow> radix_digit c = Some (digit_val c) \<and> digit_val c < 10"
  by (auto simp: is_digit_def radix_digit_def digit_val_def Let_def)

lemma is_digit_not_ws: "is_digit c \<Longrightarrow> \<not> is_ws c"
  by (auto simp: is_digit_def is_ws_def)

lemma is_digit_not_letter:
  "is_digit c \<Longrightarrow> c \<noteq> CHR ''+'' \<and> c \<noteq> CHR ''-'' \<and> c \<noteq> CHR ''x'' \<and> c \<noteq> CHR ''X''
     \<and> c \<noteq> CHR ''o'' \<and> c \<noteq> CHR ''O'' \<and> c \<noteq> CHR ''b'' \<and> c \<noteq> CHR ''B''"
  by (auto simp: is_digit_def)

lemma dec_nat_digits: "list_all is_digit (dec_nat n)"
proof (induction n rule: dec_nat.induct)
  case (1 n)
  show ?case
  proof (cases "n < 10")
    case True
    then show ?thesis by (subst dec_nat.simps) (simp add: digit_char_digit)
  next
    case False
    then show ?thesis
      using 1 by (subst dec_nat.simps) (simp add: digit_char_digit)
  qed
qed

lemma dec_nat_nonempty: "dec_nat n \<noteq> []"
  by (subst dec_nat.simps) simp

lemma radix_fold_dec_nat:
  "foldl (\<lambda>a c. 10 * a + (case radix_digit c of None \<Rightarrow> 0 | Some d \<Rightarrow> d)) 0 (dec_nat n) = n"
proof (induction n rule: dec_nat.induct)
  case (1 n)
  show ?case
  proof (cases "n < 10")
    case True
    then show ?thesis
      by (subst dec_nat.simps) (simp add: digit_char_digit is_digit_radix)
  next
    case False
    then show ?thesis
      using 1 by (subst dec_nat.simps) (simp add: digit_char_digit is_digit_radix)
  qed
qed

lemma parse_radix_dec_nat: "parse_radix 10 (dec_nat n) = Some n"
proof -
  have "list_all (\<lambda>c. case radix_digit c of None \<Rightarrow> False | Some d \<Rightarrow> d < 10) (dec_nat n)"
    using dec_nat_digits [of n] by (auto simp: list_all_iff is_digit_radix)
  then show ?thesis
    by (simp add: parse_radix_def dec_nat_nonempty radix_fold_dec_nat)
qed

lemma trim_id: "s \<noteq> [] \<Longrightarrow> \<not> is_ws (hd s) \<Longrightarrow> \<not> is_ws (last s) \<Longrightarrow> trim s = s"
proof -
  assume a: "s \<noteq> []" "\<not> is_ws (hd s)" "\<not> is_ws (last s)"
  then have "dropWhile is_ws s = s"
    by (cases s) simp_all
  moreover have "dropWhile is_ws (rev s) = rev s"
    using a by (cases "rev s") (simp_all add: last_rev [symmetric] hd_rev)
  ultimately show ?thesis by (simp add: trim_def)
qed

lemma digits_take2:
  assumes "list_all is_digit s" "\<not> is_digit b"
  shows "take 2 s \<noteq> [a, b]"
  using assms by (cases s; cases "tl s") auto

lemma StringToBigInt_dec_nat: "StringToBigInt (dec_nat n) = Some (int n)"
proof -
  let ?s = "dec_nat n"
  have all: "list_all is_digit ?s" by (rule dec_nat_digits)
  have ne: "?s \<noteq> []" by (rule dec_nat_nonempty)
  have hd: "is_digit (hd ?s)" and last: "is_digit (last ?s)"
    using all ne by (auto simp: list_all_iff)
  have t: "trim ?s = ?s"
    using ne hd last by (intro trim_id) (auto dest: is_digit_not_ws)
  have x: "\<not> is_digit CHR ''x''" "\<not> is_digit CHR ''X''" "\<not> is_digit CHR ''o''"
    "\<not> is_digit CHR ''O''" "\<not> is_digit CHR ''b''" "\<not> is_digit CHR ''B''"
    by (simp_all add: is_digit_def)
  show ?thesis
    using ne is_digit_not_letter [OF hd] x [THEN digits_take2 [OF all]]
    by (simp add: StringToBigInt_def t parse_radix_dec_nat)
qed

lemma StringToBigInt_dec_int: "StringToBigInt (dec_int i) = Some i"
proof (cases "i < 0")
  case False
  then show ?thesis by (simp add: dec_int_def StringToBigInt_dec_nat)
next
  case True
  let ?s = "CHR ''-'' # dec_nat (nat (- i))"
  have all: "list_all is_digit (dec_nat (nat (- i)))" by (rule dec_nat_digits)
  have ne: "dec_nat (nat (- i)) \<noteq> []" by (rule dec_nat_nonempty)
  have "is_digit (last (dec_nat (nat (- i))))"
    using all ne by (auto simp: list_all_iff)
  then have "\<not> is_ws (last ?s)"
    using ne by (simp add: is_digit_not_ws)
  moreover have "\<not> is_ws (hd ?s)" by (simp add: is_ws_def)
  ultimately have t: "trim ?s = ?s"
    by (intro trim_id) simp_all
  show ?thesis
    using True by (simp add: dec_int_def StringToBigInt_def t parse_radix_dec_nat)
qed

section \<open>What \<open>Pickle\<close> writes for a faithful value\<close>

lemma traverse_map: "(\<And>x. x \<in> set xs \<Longrightarrow> f x = Inr (g x)) \<Longrightarrow> traverse f xs = Inr (map g xs)"
  by (induction xs) simp_all

lemma faithful_list_iff: "faithful_list rt xs = (\<forall>x \<in> set xs. faithful rt x)"
  by (induction xs) simp_all

lemma faithful_props_iff: "faithful_props rt ps = (\<forall>p \<in> set ps. faithful rt (snd p))"
  by (induction ps) auto

lemma faithful_entries_iff:
  "faithful_entries rt es =
     (\<forall>e \<in> set es. faithful rt (fst e) \<and> isSimpleObject (fst e)
        \<and> faithful rt (snd e) \<and> isSimpleObject (snd e))"
  by (induction es) auto

lemma stack_need_list_le: "(stack_need_list xs \<le> d) = (\<forall>x \<in> set xs. stack_need x \<le> d)"
  by (induction xs) simp_all

lemma stack_need_props_le: "(stack_need_props ps \<le> d) = (\<forall>p \<in> set ps. stack_need (snd p) \<le> d)"
  by (induction ps) auto

lemma stack_need_entries_le:
  "(stack_need_entries es \<le> d) = (\<forall>e \<in> set es. stack_need (fst e) \<le> d \<and> stack_need (snd e) \<le> d)"
  by (induction es) auto

lemma encoding_list_map: "encoding_list rt xs = map (encoding rt) xs"
  by (induction xs) simp_all

lemma encoding_entries_map:
  "encoding_entries rt es = map (\<lambda>e. JArr [encoding rt (fst e), encoding rt (snd e)]) es"
  by (induction es) auto

lemma encoding_props_map:
  "string_keyed ps \<Longrightarrow> encoding_props rt ps = map (\<lambda>(k, v). (k, encoding rt v)) (string_props ps)"
  by (induction ps rule: string_keyed.induct) (simp_all add: string_props_def)

lemma all_simple_iff: "all_simple xs = (\<forall>x \<in> set xs. isSimpleObject x)"
  by (induction xs) simp_all

lemma all_simple_props_iff: "all_simple_props ps = (\<forall>p \<in> set ps. isSimpleObject (snd p))"
  by (induction ps) simp_all

lemma serialize_string: "SerializeJSONProperty (Suc d) rt reg (VStr s) = Inr (Some (JStr s))"
  by (simp add: apply_toJSON_def typechk_defs replacer_def getPickler_def builtInPickleTypes_def)

lemma serialize_flat:
  assumes "SerializeJSONProperty (Suc d) rt reg payload = Inr (Some t)"
  shows "serialize_value (SerializeJSONProperty (Suc d) rt reg) (MakeFlat name payload)
    = Inr (Some (flat_text name t))"
  using assms
  by (simp add: MakeFlat_def SerializeJSONObject_def string_props_def serialize_string flat_text_def
      del: SerializeJSONProperty.simps)

lemma serialize_leaf:
  "SerializeJSONProperty (Suc d) rt reg VNull = Inr (Some JNull)"
  "SerializeJSONProperty (Suc d) rt reg (VBool b) = Inr (Some (JBool b))"
  "SerializeJSONProperty (Suc d) rt reg (VNum (Finite i)) = Inr (Some (JNum i))"
  by (simp_all add: apply_toJSON_def typechk_defs replacer_def getPickler_def builtInPickleTypes_def)

lemmas built_in_tags = built_ins_registered_def getPickler_def builtInPickleTypes_def
  getPickleHandler_def tag_defs typechk_defs apply_toJSON_def replacer_def

lemma serialize_BigInt:
  assumes "built_ins_registered rt reg"
  shows "SerializeJSONProperty (Suc (Suc d)) rt reg (VBigInt i)
    = Inr (Some (flat_text ''freik.BigInt'' (JStr (dec_int i))))"
proof -
  have "SerializeJSONProperty (Suc (Suc d)) rt reg (VBigInt i)
      = serialize_value (SerializeJSONProperty (Suc d) rt reg)
          (MakeFlat ''freik.BigInt'' (VStr (dec_int i)))"
    using assms by (subst SerializeJSONProperty.simps) (simp add: built_in_tags)
  then show ?thesis
    by (simp only: serialize_flat [OF serialize_string])
qed

lemma serialize_Symbol:
  assumes "built_ins_registered rt reg"
  shows "SerializeJSONProperty (Suc (Suc d)) rt reg (VSymbol (GlobalSym k))
    = Inr (Some (flat_text ''freik.Symbol'' (JStr k)))"
proof -
  have "SerializeJSONProperty (Suc (Suc d)) rt reg (VSymbol (GlobalSym k))
      = serialize_value (SerializeJSONProperty (Suc d) rt reg)
          (MakeFlat ''freik.Symbol'' (VStr k))"
    using assms by (subst SerializeJSONProperty.simps) (simp add: built_in_tags)
  then show ?thesis
    by (simp only: serialize_flat [OF serialize_string])
qed

lemma serialize_Date:
  assumes "built_ins_registered rt reg"
  shows "SerializeJSONProperty (Suc (Suc d)) rt reg (VDate (Some ms) [])
    = Inr (Some (flat_text ''freik.Date'' (JStr (toISOString rt ms))))"
proof -
  have "SerializeJSONProperty (Suc (Suc d)) rt reg (VDate (Some ms) [])
      = serialize_value (SerializeJSONProperty (Suc d) rt reg)
          (MakeFlat ''freik.Date'' (VStr (toISOString rt ms)))"
    using assms by (subst SerializeJSONProperty.simps) (simp add: built_in_tags)
  then show ?thesis
    by (simp only: serialize_flat [OF serialize_string])
qed

lemma serialize_source_flags:
  "SerializeJSONProperty (Suc (Suc d)) rt reg (VObj [(KStr ''source'', VStr src), (KStr ''flags'', VStr fl)])
    = Inr (Some (JObj [(''source'', JStr src), (''flags'', JStr fl)]))"
  by (subst SerializeJSONProperty.simps)
     (simp add: apply_toJSON_def typechk_defs replacer_def getPickler_def builtInPickleTypes_def
       SerializeJSONObject_def string_props_def serialize_string del: SerializeJSONProperty.simps)

lemma serialize_RegExp:
  assumes "built_ins_registered rt reg"
  shows "SerializeJSONProperty (Suc (Suc (Suc d))) rt reg (VRegExp src fl [])
    = Inr (Some (flat_text ''freik.RegExp'' (JObj [(''source'', JStr src), (''flags'', JStr fl)])))"
proof -
  have "SerializeJSONProperty (Suc (Suc (Suc d))) rt reg (VRegExp src fl [])
      = serialize_value (SerializeJSONProperty (Suc (Suc d)) rt reg)
          (MakeFlat ''freik.RegExp'' (VObj [(KStr ''source'', VStr src), (KStr ''flags'', VStr fl)]))"
    using assms by (subst SerializeJSONProperty.simps) (simp add: built_in_tags)
  then show ?thesis
    by (simp only: serialize_flat [OF serialize_source_flags])
qed

lemma serialize_array_elements:
  assumes "\<And>x. x \<in> set xs \<Longrightarrow> SerializeJSONProperty d rt reg x = Inr (Some (g x))"
  shows "SerializeJSONProperty (Suc d) rt reg (VArr xs []) = Inr (Some (JArr (map g xs)))"
proof -
  have "traverse (SerializeJSONProperty d rt reg) xs = Inr (map (\<lambda>x. Some (g x)) xs)"
    using assms by (intro traverse_map) simp
  then show ?thesis
    by (subst SerializeJSONProperty.simps)
       (simp add: apply_toJSON_def typechk_defs replacer_def getPickler_def builtInPickleTypes_def
         SerializeJSONArray_def comp_def del: SerializeJSONProperty.simps)
qed

lemma serialize_Set_elements:
  assumes "built_ins_registered rt reg"
    and "\<And>x. x \<in> set xs \<Longrightarrow> SerializeJSONProperty d rt reg x = Inr (Some (g x))"
  shows "SerializeJSONProperty (Suc (Suc d)) rt reg (VSet xs [])
    = Inr (Some (flat_text ''freik.Set'' (JArr (map g xs))))"
proof -
  have "SerializeJSONProperty (Suc (Suc d)) rt reg (VSet xs [])
      = serialize_value (SerializeJSONProperty (Suc d) rt reg) (MakeFlat ''freik.Set'' (VArr xs []))"
    using assms(1) by (subst SerializeJSONProperty.simps) (simp add: built_in_tags)
  then show ?thesis
    by (simp only: serialize_flat [OF serialize_array_elements [OF assms(2)]])
qed

lemma serialize_Map_entries:
  assumes "built_ins_registered rt reg"
    and "\<And>e. e \<in> set es \<Longrightarrow> SerializeJSONProperty d rt reg (fst e) = Inr (Some (g (fst e)))
           \<and> SerializeJSONProperty d rt reg (snd e) = Inr (Some (g (snd e)))"
  shows "SerializeJSONProperty (Suc (Suc (Suc d))) rt reg (VMap es [])
    = Inr (Some (flat_text ''freik.Map'' (JArr (map (\<lambda>e. JArr [g (fst e), g (snd e)]) es))))"
proof -
  let ?pairs = "map (\<lambda>(k, v). VArr [k, v] []) es"
  have pair: "SerializeJSONProperty (Suc d) rt reg p
      = Inr (Some (case p of VArr [k, v] ps \<Rightarrow> JArr [g k, g v] | _ \<Rightarrow> JNull))"
    if "p \<in> set ?pairs" for p
  proof -
    from that obtain k v where kv: "(k, v) \<in> set es" "p = VArr [k, v] []" by auto
    have "SerializeJSONProperty (Suc d) rt reg (VArr [k, v] []) = Inr (Some (JArr (map g [k, v])))"
      using assms(2) [OF kv(1)] by (intro serialize_array_elements) auto
    then show ?thesis by (simp add: kv(2))
  qed
  have "SerializeJSONProperty (Suc (Suc d)) rt reg (VArr ?pairs [])
      = Inr (Some (JArr (map (\<lambda>p. case p of VArr [k, v] ps \<Rightarrow> JArr [g k, g v] | _ \<Rightarrow> JNull) ?pairs)))"
    using pair by (rule serialize_array_elements)
  also have "map (\<lambda>p. case p of VArr [k, v] ps \<Rightarrow> JArr [g k, g v] | _ \<Rightarrow> JNull) ?pairs
      = map (\<lambda>e. JArr [g (fst e), g (snd e)]) es"
    by (auto simp: comp_def split: prod.splits)
  finally have payload: "SerializeJSONProperty (Suc (Suc d)) rt reg (VArr ?pairs [])
      = Inr (Some (JArr (map (\<lambda>e. JArr [g (fst e), g (snd e)]) es)))" .
  have "SerializeJSONProperty (Suc (Suc (Suc d))) rt reg (VMap es [])
      = serialize_value (SerializeJSONProperty (Suc (Suc d)) rt reg)
          (MakeFlat ''freik.Map'' (VArr ?pairs []))"
    using assms(1) by (subst SerializeJSONProperty.simps) (simp add: built_in_tags)
  then show ?thesis
    by (simp only: serialize_flat [OF payload])
qed

lemma serialize_object_props:
  assumes "string_keyed ps" "\<not> hasFieldType (VObj ps) (KStr ''toJSON'') isFunction"
    and "\<And>p. p \<in> set ps \<Longrightarrow> SerializeJSONProperty d rt reg (snd p) = Inr (Some (g (snd p)))"
  shows "SerializeJSONProperty (Suc d) rt reg (VObj ps)
    = Inr (Some (JObj (map (\<lambda>(k, v). (k, g v)) (string_props ps))))"
proof -
  have m: "(k, v) \<in> set (string_props ps) \<Longrightarrow> (KStr k, v) \<in> set ps" for k v
    by (induction ps) (auto simp: string_props_def split: pkey.splits)
  have "traverse (\<lambda>(k, v). case SerializeJSONProperty d rt reg v of Inl e \<Rightarrow> Inl e | Inr t \<Rightarrow> Inr (k, t))
      (string_props ps) = Inr (map (\<lambda>(k, v). (k, Some (g v))) (string_props ps))"
    using assms(3) m by (intro traverse_map) force
  then show ?thesis
    using assms(1,2)
    by (simp add: serialize_plain_object SerializeJSONObject_def comp_def case_prod_unfold
        del: SerializeJSONProperty.simps)
qed


lemma faithful_not_function: "faithful rt v \<Longrightarrow> \<not> isFunction v"
  by (cases v) (simp_all add: isFunction_def)

lemma faithful_props_no_toJSON:
  assumes "faithful_props rt ps"
  shows "\<not> hasFieldType (VObj ps) (KStr ''toJSON'') isFunction"
proof
  assume "hasFieldType (VObj ps) (KStr ''toJSON'') isFunction"
  then obtain f where f: "map_of ps (KStr ''toJSON'') = Some f" "isFunction f"
    by (auto simp: hasFieldType_def hasField_def getField_def lookup_def split: option.splits)
  then have "(KStr ''toJSON'', f) \<in> set ps" by (simp add: map_of_SomeD)
  then have "faithful rt f" using assms by (auto simp: faithful_props_iff)
  then show False using f(2) faithful_not_function by blast
qed

lemma serialize_faithful:
  assumes B: "built_ins_registered rt reg"
  shows "faithful rt v \<Longrightarrow> stack_need v \<le> d \<Longrightarrow>
    SerializeJSONProperty d rt reg v = Inr (Some (encoding rt v))"
proof (induction v arbitrary: d)
  case VNull
  then obtain d' where "d = Suc d'" by (cases d) auto
  then show ?case by (simp add: serialize_leaf del: SerializeJSONProperty.simps)
next
  case (VBool b)
  then obtain d' where "d = Suc d'" by (cases d) auto
  then show ?case by (simp add: serialize_leaf del: SerializeJSONProperty.simps)
next
  case (VNum n)
  then obtain d' where "d = Suc d'" by (cases d) auto
  then show ?case using VNum
    by (cases n) (simp_all add: serialize_leaf del: SerializeJSONProperty.simps)
next
  case (VStr s)
  then obtain d' where "d = Suc d'" by (cases d) auto
  then show ?case by (simp add: serialize_string del: SerializeJSONProperty.simps)
next
  case (VBigInt i)
  then obtain d' where "d = Suc (Suc d')" by (cases d; cases "d - 1") auto
  then show ?case by (simp add: serialize_BigInt [OF B] del: SerializeJSONProperty.simps)
next
  case (VSymbol y)
  then obtain d' where d: "d = Suc (Suc d')" by (cases d; cases "d - 1") auto
  from VSymbol obtain k where "y = GlobalSym k" by (cases y) auto
  then show ?case by (simp add: d serialize_Symbol [OF B] del: SerializeJSONProperty.simps)
next
  case (VDate t ps)
  then obtain d' where d: "d = Suc (Suc d')" by (cases d; cases "d - 1") auto
  from VDate obtain ms where "t = Some ms" "ps = []" by (cases t) auto
  then show ?case by (simp add: d serialize_Date [OF B] del: SerializeJSONProperty.simps)
next
  case (VRegExp src fl ps)
  then obtain d' where d: "d = Suc (Suc (Suc d'))"
    by (cases d; cases "d - 1"; cases "d - 2") auto
  from VRegExp have "ps = []" by simp
  then show ?case by (simp add: d serialize_RegExp [OF B] del: SerializeJSONProperty.simps)
next
  case (VArr xs ps)
  then obtain d' where d: "d = Suc d'" by (cases d) auto
  from VArr.prems have ps: "ps = []" and f: "\<forall>x \<in> set xs. faithful rt x"
    and n: "\<forall>x \<in> set xs. stack_need x \<le> d'"
    by (simp_all add: faithful_list_iff d stack_need_list_le)
  have "SerializeJSONProperty d' rt reg x = Inr (Some (encoding rt x))" if "x \<in> set xs" for x
    using VArr.IH(1) [OF that] f n that by blast
  then show ?case
    by (simp add: d ps serialize_array_elements encoding_list_map del: SerializeJSONProperty.simps)
next
  case (VSet xs ps)
  then obtain d' where d: "d = Suc (Suc d')" by (cases d; cases "d - 1") auto
  from VSet.prems have ps: "ps = []" and f: "\<forall>x \<in> set xs. faithful rt x"
    and n: "\<forall>x \<in> set xs. stack_need x \<le> d'"
    by (simp_all add: faithful_list_iff d stack_need_list_le)
  have "SerializeJSONProperty d' rt reg x = Inr (Some (encoding rt x))" if "x \<in> set xs" for x
    using VSet.IH(1) [OF that] f n that by blast
  then show ?case
    by (simp add: d ps serialize_Set_elements [OF B] encoding_list_map
        del: SerializeJSONProperty.simps)
next
  case (VMap es ps)
  then obtain d' where d: "d = Suc (Suc (Suc d'))"
    by (cases d; cases "d - 1"; cases "d - 2") auto
  from VMap.prems have ps: "ps = []"
    and f: "\<forall>e \<in> set es. faithful rt (fst e) \<and> faithful rt (snd e)"
    and n: "\<forall>e \<in> set es. stack_need (fst e) \<le> d' \<and> stack_need (snd e) \<le> d'"
    by (simp_all add: faithful_entries_iff d stack_need_entries_le)
  have "SerializeJSONProperty d' rt reg (fst e) = Inr (Some (encoding rt (fst e)))
      \<and> SerializeJSONProperty d' rt reg (snd e) = Inr (Some (encoding rt (snd e)))"
    if "e \<in> set es" for e
  proof -
    have "fst e \<in> Basic_BNFs.fsts e" "snd e \<in> Basic_BNFs.snds e"
      by (cases e; simp)+
    then show ?thesis
      using VMap.IH(1) [OF that, of "fst e" d'] VMap.IH(2) [OF that, of "snd e" d'] f n that
      by blast
  qed
  then show ?case
    by (simp add: d ps serialize_Map_entries [OF B] encoding_entries_map
        del: SerializeJSONProperty.simps)
next
  case (VObj ps)
  then obtain d' where d: "d = Suc d'" by (cases d) auto
  from VObj.prems have sk: "string_keyed ps" and fp: "faithful_props rt ps"
    and n: "\<forall>p \<in> set ps. stack_need (snd p) \<le> d'"
    by (simp_all add: d stack_need_props_le)
  have "SerializeJSONProperty d' rt reg (snd p) = Inr (Some (encoding rt (snd p)))"
    if "p \<in> set ps" for p
  proof -
    have "snd p \<in> Basic_BNFs.snds p" by (cases p) simp
    then show ?thesis
      using VObj.IH [OF that, of "snd p" d'] fp n that by (auto simp: faithful_props_iff)
  qed
  then show ?case
    using serialize_object_props [OF sk faithful_props_no_toJSON [OF fp], of d' rt reg "encoding rt"]
    by (simp add: d encoding_props_map [OF sk] del: SerializeJSONProperty.simps)
qed simp_all

section \<open>What \<open>Unpickle\<close> reads from the text of a faithful value\<close>

lemma insert_index_last:
  "\<forall>p \<in> set ps. \<exists>s j. fst p = KStr s \<and> array_index s = Some j \<and> j < i \<Longrightarrow>
   insert_index i k v ps = ps @ [(KStr k, v)]"
  by (induction i k v ps rule: insert_index.induct) auto

lemma keys_in_order_snoc:
  "keys_in_order (ks @ [k]) =
     (keys_in_order ks \<and> k \<notin> set ks
      \<and> (\<forall>k' \<in> set ks. case array_index k' of
             Some i' \<Rightarrow> (case array_index k of Some i \<Rightarrow> i' < i | None \<Rightarrow> True)
           | None \<Rightarrow> array_index k = None))"
  by (induction ks) (auto simp: list_all_iff split: option.splits)

lemma build_in_order:
  "keys_in_order (map fst kvs) \<Longrightarrow>
   foldl (\<lambda>ps (k, v). CreateDataProperty ps k v) [] kvs = map (\<lambda>(k, v). (KStr k, v)) kvs"
proof (induction kvs rule: rev_induct)
  case Nil
  then show ?case by simp
next
  case (snoc kv kvs)
  obtain k v where kv: "kv = (k, v)" by (cases kv)
  from snoc.prems have o: "keys_in_order (map fst kvs)" and new: "k \<notin> fst ` set kvs"
    and before: "\<forall>k' \<in> fst ` set kvs. case array_index k' of
             Some i' \<Rightarrow> (case array_index k of Some i \<Rightarrow> i' < i | None \<Rightarrow> True)
           | None \<Rightarrow> array_index k = None"
    by (simp_all add: kv keys_in_order_snoc)
  let ?ps = "map (\<lambda>(k, v). (KStr k, v)) kvs"
  have built: "foldl (\<lambda>ps (k, v). CreateDataProperty ps k v) [] kvs = ?ps"
    using snoc.IH [OF o] .
  have absent: "KStr k \<notin> set (map fst ?ps)"
    using new by (auto simp: case_prod_unfold)
  have "CreateDataProperty ?ps k v = ?ps @ [(KStr k, v)]"
  proof (cases "array_index k")
    case None
    then show ?thesis using absent by (simp add: CreateDataProperty_def)
  next
    case (Some i)
    have "\<forall>p \<in> set ?ps. \<exists>s j. fst p = KStr s \<and> array_index s = Some j \<and> j < i"
    proof
      fix p assume "p \<in> set ?ps"
      then obtain k' v' where p: "p = (KStr k', v')" "(k', v') \<in> set kvs" by auto
      then have "k' \<in> fst ` set kvs" by force
      with before Some have "\<exists>j. array_index k' = Some j \<and> j < i"
        by (cases "array_index k'") force+
      then show "\<exists>s j. fst p = KStr s \<and> array_index s = Some j \<and> j < i"
        by (simp add: p(1))
    qed
    then have "insert_index i k v ?ps = ?ps @ [(KStr k, v)]"
      by (rule insert_index_last)
    then show ?thesis using absent Some by (simp add: CreateDataProperty_def)
  qed
  then show ?case by (simp add: kv built)
qed

lemma JSON_value_flat: "JSON_value (flat_text name t) = MakeFlat name (JSON_value t)"
  by (simp add: flat_text_def MakeFlat_def CreateDataProperty_def)

lemma Internalize_flat:
  assumes "InternalizeJSONProperty reg p0 = Inr p" "p \<noteq> VUndefined"
  shows "InternalizeJSONProperty reg (MakeFlat name p0) = reviver reg (MakeFlat name p)"
  using assms by (simp add: MakeFlat_def reviver_not_object typechk_defs)

lemma reviver_flat:
  assumes "isSimpleObject p" "reg_from reg (GlobalSym name) = Some decode" "decode p = Inr r"
    "r \<noteq> VUndefined"
  shows "reviver reg (MakeFlat name p) = Inr r"
  using assms by (simp add: unpickle_eval)

lemma decode_flat:
  assumes "InternalizeJSONProperty reg (JSON_value t) = Inr p" "p \<noteq> VUndefined"
    "isSimpleObject p" "reg_from reg (GlobalSym name) = Some decode" "decode p = Inr r"
    "r \<noteq> VUndefined"
  shows "InternalizeJSONProperty reg (JSON_value (flat_text name t)) = Inr r"
  using Internalize_flat [OF assms(1,2)] reviver_flat [OF assms(3-6)]
  by (simp add: JSON_value_flat)

lemma Internalize_elements_map:
  "(\<And>x. x \<in> set xs \<Longrightarrow> InternalizeJSONProperty reg (h x) = Inr (g x)) \<Longrightarrow>
   Internalize_elements reg (map h xs) = Inr (map g xs)"
  by (induction xs) simp_all

lemma Internalize_props_map:
  "(\<And>k v. (k, v) \<in> set kvs \<Longrightarrow> InternalizeJSONProperty reg (h v) = Inr v \<and> v \<noteq> VUndefined) \<Longrightarrow>
   Internalize_props reg (map (\<lambda>(k, v). (KStr k, h v)) kvs) = Inr (map (\<lambda>(k, v). (KStr k, v)) kvs)"
proof (induction kvs)
  case Nil
  then show ?case by simp
next
  case (Cons kv kvs)
  obtain k v where kv: "kv = (k, v)" by (cases kv)
  have "InternalizeJSONProperty reg (h v) = Inr v \<and> v \<noteq> VUndefined"
    using Cons.prems [of k v] by (simp add: kv)
  moreover have "Internalize_props reg (map (\<lambda>(k, v). (KStr k, h v)) kvs)
      = Inr (map (\<lambda>(k, v). (KStr k, v)) kvs)"
    using Cons by auto
  ultimately show ?case by (simp add: kv)
qed

lemma faithful_defined: "faithful rt v \<Longrightarrow> v \<noteq> VUndefined"
  by auto


lemma reviver_string: "reviver reg (VStr s) = Inr (VStr s)"
  by (simp add: reviver_not_object typechk_defs)

lemma Internalize_array:
  assumes "\<And>x. x \<in> set xs \<Longrightarrow> InternalizeJSONProperty reg (JSON_value (h x)) = Inr (g x)"
  shows "InternalizeJSONProperty reg (JSON_value (JArr (map h xs))) = Inr (VArr (map g xs) [])"
proof -
  have "Internalize_elements reg (map (\<lambda>x. JSON_value (h x)) xs) = Inr (map g xs)"
    using assms by (rule Internalize_elements_map)
  then show ?thesis
    by (simp add: JSON_values_map comp_def reviver_array)
qed

lemma internalize_faithful:
  assumes B: "built_ins_registered rt reg"
  shows "faithful rt v \<Longrightarrow> InternalizeJSONProperty reg (JSON_value (encoding rt v)) = Inr v"
proof (induction v)
  case (VNum n)
  then show ?case by (cases n) (simp_all add: reviver_not_object typechk_defs)
next
  case (VBigInt i)
  have "BigIntUnpickle (VStr (dec_int i)) = Inr (VBigInt i)"
    by (simp add: BigIntUnpickle_def isString_def StringToBigInt_dec_int)
  then show ?case
    using B decode_flat [of reg "JStr (dec_int i)" "VStr (dec_int i)" "''freik.BigInt''"
        BigIntUnpickle "VBigInt i"]
    by (simp add: reviver_string built_ins_registered_def tag_defs)
next
  case (VSymbol y)
  then obtain k where y: "y = GlobalSym k" by (cases y) auto
  have "SymbolUnpickle (VStr k) = Inr (VSymbol (GlobalSym k))"
    by (simp add: SymbolUnpickle_def isString_def Symbol_for_def)
  then show ?case
    using B decode_flat [of reg "JStr k" "VStr k" "''freik.Symbol''" SymbolUnpickle "VSymbol y"]
    by (simp add: y reviver_string built_ins_registered_def tag_defs)
next
  case (VDate t ps)
  then obtain ms where t: "t = Some ms" "ps = []"
    and reads: "Date_parse rt (toISOString rt ms) = Some ms"
    by (cases t) auto
  have "DateUnpickle rt (VStr (toISOString rt ms)) = Inr (VDate (Some ms) [])"
    by (simp add: DateUnpickle_def isString_def new_Date_def reads)
  then show ?case
    using B decode_flat [of reg "JStr (toISOString rt ms)" "VStr (toISOString rt ms)"
        "''freik.Date''" "DateUnpickle rt" "VDate (Some ms) []"]
    by (simp add: t reviver_string built_ins_registered_def tag_defs)
next
  case (VRegExp src fl ps)
  then have ps: "ps = []" and reads: "RegExp_create rt src fl = Some (src, fl)"
    by simp_all
  let ?t = "JObj [(''source'', JStr src), (''flags'', JStr fl)]"
  let ?p = "VObj [(KStr ''source'', VStr src), (KStr ''flags'', VStr fl)]"
  have "InternalizeJSONProperty reg (JSON_value ?t) = Inr ?p"
    by (simp add: CreateDataProperty_def reviver_not_object typechk_defs reviver_def
        isFlattened_def)
  moreover have "RegexUnpickle rt ?p = Inr (VRegExp src fl [])"
    by (simp add: RegexUnpickle_def typechk_defs new_RegExp_def reads)
  ultimately show ?case
    using B decode_flat [of reg ?t ?p "''freik.RegExp''" "RegexUnpickle rt" "VRegExp src fl []"]
    by (simp add: ps built_ins_registered_def tag_defs)
next
  case (VArr xs ps)
  then have ps: "ps = []" and f: "\<forall>x \<in> set xs. faithful rt x"
    by (simp_all add: faithful_list_iff)
  have "InternalizeJSONProperty reg (JSON_value (JArr (map (encoding rt) xs)))
      = Inr (VArr (map (\<lambda>x. x) xs) [])"
    using VArr.IH(1) f by (intro Internalize_array) blast
  then show ?case by (simp add: ps encoding_list_map)
next
  case (VSet xs ps)
  then have ps: "ps = []" and f: "\<forall>x \<in> set xs. faithful rt x" and simple: "all_simple xs"
    and set: "new_Set xs = VSet xs []"
    by (simp_all add: faithful_list_iff)
  have payload: "InternalizeJSONProperty reg (JSON_value (JArr (map (encoding rt) xs)))
      = Inr (VArr (map (\<lambda>x. x) xs) [])"
    using VSet.IH(1) f by (intro Internalize_array) blast
  have "SetUnpickle (VArr xs []) = Inr (VSet xs [])"
    by (simp add: SetUnpickle_def set)
  then show ?case
    using B payload simple
      decode_flat [of reg "JArr (map (encoding rt) xs)" "VArr xs []" "''freik.Set''"
        SetUnpickle "VSet xs []"]
    by (simp add: ps encoding_list_map built_ins_registered_def tag_defs)
next
  case (VMap es ps)
  then have ps: "ps = []"
    and f: "\<forall>e \<in> set es. faithful rt (fst e) \<and> isSimpleObject (fst e)
        \<and> faithful rt (snd e) \<and> isSimpleObject (snd e)"
    and map: "new_Map (map (\<lambda>(k, v). VArr [k, v] []) es) = VMap es []"
    by (simp_all add: faithful_entries_iff)
  let ?pairs = "map (\<lambda>e. VArr [fst e, snd e] []) es"
  have pair: "InternalizeJSONProperty reg
      (JSON_value (JArr [encoding rt (fst e), encoding rt (snd e)])) = Inr (VArr [fst e, snd e] [])"
    if "e \<in> set es" for e
  proof -
    have "fst e \<in> Basic_BNFs.fsts e" "snd e \<in> Basic_BNFs.snds e"
      by (cases e; simp)+
    then have "InternalizeJSONProperty reg (JSON_value (encoding rt (fst e))) = Inr (fst e)"
      "InternalizeJSONProperty reg (JSON_value (encoding rt (snd e))) = Inr (snd e)"
      using VMap.IH(1) [OF that, of "fst e"] VMap.IH(2) [OF that, of "snd e"] f that by blast+
    then show ?thesis by (simp add: reviver_array)
  qed
  have payload: "InternalizeJSONProperty reg
      (JSON_value (JArr (map (\<lambda>e. JArr [encoding rt (fst e), encoding rt (snd e)]) es)))
      = Inr (VArr ?pairs [])"
    using pair by (rule Internalize_array)
  have map': "new_Map ?pairs = VMap es []"
    using map by (simp add: case_prod_unfold)
  have simple: "isSimpleObject (VArr ?pairs [])"
    using f by (simp add: all_simple_iff)
  have "MapUnpickle (VArr ?pairs []) = Inr (VMap es [])"
    using map' by (simp add: MapUnpickle_def list_all_iff)
  then show ?case
    using B payload simple
      decode_flat [of reg "JArr (map (\<lambda>e. JArr [encoding rt (fst e), encoding rt (snd e)]) es)"
        "VArr ?pairs []" "''freik.Map''" MapUnpickle "VMap es []"]
    by (simp add: ps encoding_entries_map built_ins_registered_def tag_defs)
next
  case (VObj ps)
  then have sk: "string_keyed ps" and o: "keys_in_order (map fst (string_props ps))"
    and fp: "faithful_props rt ps" and shape: "\<not> isFlattened (VObj ps)"
    by simp_all
  let ?kvs = "string_props ps"
  have built: "JSON_value (JObj (map (\<lambda>(k, v). (k, encoding rt v)) ?kvs))
      = VObj (map (\<lambda>(k, v). (KStr k, JSON_value (encoding rt v))) ?kvs)"
  proof -
    have "keys_in_order (map fst (map (\<lambda>(k, v). (k, JSON_value (encoding rt v))) ?kvs))"
      using o by (simp add: comp_def case_prod_unfold)
    from build_in_order [OF this] show ?thesis
      by (simp add: JSON_members_map comp_def case_prod_unfold)
  qed
  have "InternalizeJSONProperty reg (JSON_value (encoding rt v)) = Inr v \<and> v \<noteq> VUndefined"
    if "(k, v) \<in> set ?kvs" for k v
  proof -
    have "(KStr k, v) \<in> set ps"
      using that string_keyed_props [OF sk] by (metis (no_types, lifting) case_prod_conv image_eqI list.set_map)
    moreover have "v \<in> Basic_BNFs.snds (KStr k, v)" by simp
    ultimately show ?thesis
      using VObj.IH [of "(KStr k, v)" v] fp faithful_defined [of rt v]
      by (auto simp: faithful_props_iff)
  qed
  then have "Internalize_props reg (map (\<lambda>(k, v). (KStr k, JSON_value (encoding rt v))) ?kvs)
      = Inr (map (\<lambda>(k, v). (KStr k, v)) ?kvs)"
    by (rule Internalize_props_map)
  then have "InternalizeJSONProperty reg
      (VObj (map (\<lambda>(k, v). (KStr k, JSON_value (encoding rt v))) ?kvs)) = Inr (VObj ps)"
    using shape by (simp add: string_keyed_props [OF sk] reviver_def)
  then show ?case
    by (simp only: encoding.simps encoding_props_map [OF sk] built)
qed (simp_all add: reviver_not_object typechk_defs)

section \<open>\<open>isSimpleObject\<close> as the source writes it\<close>

lemma string_is_key [simp]: "chkOneOf isString isNumber (VStr s)"
  by (simp add: chkOneOf_def isOneOf_def isString_def)

lemma all_simple_props_values:
  "all_simple_props ps =
     list_all isSimpleObject (map snd (string_props ps) @ map snd (symbol_props ps))"
proof (induction ps)
  case Nil
  then show ?case by (simp add: string_props_def symbol_props_def)
next
  case (Cons p ps)
  obtain k v where p: "p = (k, v)" by (cases p)
  show ?case
    using Cons by (cases k) (auto simp: p string_props_def symbol_props_def)
qed

lemma isSimpleObject_source:
  "isSimpleObject x =
     (x = VNull \<or> isString x \<or> isNumber x \<or> isBoolean x \<or> isArrayOf x isSimpleObject
      \<or> (isObjectNonNull x
         \<and> isArrayOf (VArr (map VStr (Object_keys x)) []) (chkOneOf isString isNumber)
         \<and> isObjectOf x isSimpleObject))"
  by (cases x)
     (auto simp: isObjectOf_def typechk_defs all_simple_props_values
       all_simple_iff list_all_iff simp del: Object_keys.simps)


section \<open>The round trip\<close>

lemma built_ins_initial: "built_ins_registered rt (initial_registry rt)"
  by (simp add: built_ins_registered_def initial_registry_def thePicklers_def theUnpicklers_def
      tag_defs)

lemma Pickle_faithful:
  assumes "built_ins_registered rt reg" "faithful rt v" "stack_need v \<le> depth"
  shows "Pickle depth rt reg v = Inr (Some (encoding rt v))"
  unfolding Pickle_def using assms by (rule serialize_faithful)

lemma Unpickle_encoding:
  assumes "built_ins_registered rt reg" "faithful rt v"
  shows "Unpickle reg (encoding rt v) = Inr v"
  unfolding Unpickle_def using assms by (rule internalize_faithful)

lemma built_ins_example: "built_ins_registered example_runtime example_registry"
  unfolding example_registry_def by (rule built_ins_initial)

lemma example_runtime_fields [simp]:
  "toISOString example_runtime = dec_int"
  "Date_parse example_runtime = StringToBigInt"
  "RegExp_create example_runtime = (\<lambda>p f. Some (p, f))"
  by (simp_all add: example_runtime_def)

lemmas value_eval =
  new_Set_def new_Map_def same_value_zero_def is_primitive_def StringToBigInt_dec_int
  isFlattened_def typechk_defs string_props_def array_index_def is_digit_def

text \<open>
  Claim C1, as the specification states it: every valid Map, Set, Date, RegExp and BigInt
  comes back deep-equal from \<open>Unpickle(Pickle(v))\<close>. JSON has no \<open>undefined\<close>: the Set
  holding \<open>undefined\<close> is written with the payload \<open>[null]\<close> and comes back as the Set
  holding \<open>null\<close>.
\<close>

theorem round_trip_counterexample:
  "Unpickle_Pickle 3 example_runtime example_registry (VSet [VUndefined] [])
     = Inr (VSet [VNull] [])
   \<and> Unpickle_Pickle 3 example_runtime example_registry (VSet [VUndefined] [])
     \<noteq> Inr (VSet [VUndefined] [])"
  by (simp add: Unpickle_Pickle_def pickle_eval Unpickle_def parse_eval value_eval)

text \<open>
  Claim C1, amended: \<open>Unpickle(Pickle(v))\<close> is \<open>v\<close> for every faithful value \<open>v\<close>, as long
  as the six built-in tags have their built-in encoders and decoders and the stack is deep
  enough for the value. The faithful values comprise every BigInt, every Date with a
  finite time value that the runtime parses back from its ISO string, every regular
  expression the runtime builds back from its \<open>source\<close> and \<open>flags\<close>, and every Set and
  Map, without further properties, whose members are themselves faithful simple objects
  (so: \<open>null\<close>, booleans, finite numbers, strings, arrays and plain objects, Dates, regular
  expressions, Sets and Maps, at any depth). What a Set or Map holding a BigInt or a symbol
  does is not part of the statement.
\<close>

theorem round_trip:
  assumes "built_ins_registered rt reg" and "faithful rt v" and "stack_need v \<le> depth"
  shows "Unpickle_Pickle depth rt reg v = Inr v"
  by (simp add: Unpickle_Pickle_def Pickle_faithful [OF assms] Unpickle_encoding [OF assms(1,2)])

theorem round_trip_witness:
  "Unpickle_Pickle 8 example_runtime example_registry
     (VMap [(VStr ''a'', VSet [VDate (Some 0) [], VRegExp ''a'' ''i'' []] [])] [])
     = Inr (VMap [(VStr ''a'', VSet [VDate (Some 0) [], VRegExp ''a'' ''i'' []] [])] [])
   \<and> Unpickle_Pickle 2 example_runtime example_registry (VBigInt 132341293874129387412)
     = Inr (VBigInt 132341293874129387412)"
  using round_trip [OF built_ins_example, of
      "VMap [(VStr ''a'', VSet [VDate (Some 0) [], VRegExp ''a'' ''i'' []] [])] []" 8]
    round_trip [OF built_ins_example, of "VBigInt 132341293874129387412" 2]
  by (simp add: value_eval)

section \<open>Pickling again\<close>

text \<open>
  Claim C7, as the specification states it: \<open>Pickle(Unpickle(Pickle(v)))\<close> is the text
  \<open>Pickle(v)\<close> for every value that pickles. The Set holding \<open>undefined\<close> and \<open>null\<close> pickles
  to the payload \<open>[null,null]\<close>; unpickling builds a Set from it, which holds \<open>null\<close> once;
  pickling that Set gives the payload \<open>[null]\<close>.
\<close>

theorem repickle_stable_counterexample:
  \<open>map_sum id (map_option render)
     (Pickle 3 example_runtime example_registry (VSet [VUndefined, VNull] []))
     = Inr (Some ''{"@dataType":"freik.Set","@dataValue":[null,null]}'')
   \<and> map_sum id (map_option render)
       (Pickle_Unpickle_Pickle 3 example_runtime example_registry (VSet [VUndefined, VNull] []))
     = Inr (Some ''{"@dataType":"freik.Set","@dataValue":[null]}'')
   \<and> Pickle_Unpickle_Pickle 3 example_runtime example_registry (VSet [VUndefined, VNull] [])
     \<noteq> Pickle 3 example_runtime example_registry (VSet [VUndefined, VNull] [])\<close>
  by (simp add: Pickle_Unpickle_Pickle_def Unpickle_Pickle_def pickle_eval Unpickle_def parse_eval
      value_eval QuoteJSONString_def quote_char_def)

lemma traverse_map_image:
  "(\<And>x. x \<in> set xs \<Longrightarrow> f (h x) = Inr (g x)) \<Longrightarrow> traverse f (map h xs) = Inr (map g xs)"
  by (induction xs) simp_all

lemma traverse_member:
  "traverse f xs = Inr ys \<Longrightarrow> y \<in> set ys \<Longrightarrow> \<exists>x \<in> set xs. f x = Inr y"
  by (induction xs arbitrary: ys) (auto split: sum.splits)

lemma reviver_defined: "reviver reg v = Inr r \<Longrightarrow> v \<noteq> VUndefined \<Longrightarrow> r \<noteq> VUndefined"
  by (auto simp: reviver_def split: if_splits prod.splits jsval.splits option.splits sum.splits)

lemma stable_texts_iff: "stable_texts rt reg ts = (\<forall>t \<in> set ts. stable_text rt reg t)"
  by (induction ts) auto

lemma stable_members_iff: "stable_members rt reg ms = (\<forall>m \<in> set ms. stable_text rt reg (snd m))"
  by (induction ms) auto

lemma text_depth_list_le: "t \<in> set ts \<Longrightarrow> text_depth t \<le> text_depth_list ts"
  by (induction ts) auto

lemma text_depth_members_le: "m \<in> set ms \<Longrightarrow> text_depth (snd m) \<le> text_depth_members ms"
  by (induction ms) auto

lemma text_depth_list_bound: "(\<And>t. t \<in> set ts \<Longrightarrow> text_depth t \<le> d) \<Longrightarrow> text_depth_list ts \<le> d"
  by (induction ts) auto

lemma text_depth_members_bound:
  "(\<And>m. m \<in> set ms \<Longrightarrow> text_depth (snd m) \<le> d) \<Longrightarrow> text_depth_members ms \<le> d"
  by (induction ms) auto

lemma string_props_members:
  "string_props (map (\<lambda>(k, t). (KStr k, f t)) ms) = map (\<lambda>(k, t). (k, f t)) ms"
  by (induction ms) (auto simp: string_props_def)

lemma members_written:
  "concat (map (\<lambda>(k, t). case t of None \<Rightarrow> [] | Some j \<Rightarrow> [(k, j)]) (map (\<lambda>(k, t). (k, Some t)) ms)) = ms"
  by (induction ms) auto

lemma elements_written: "map (\<lambda>t. case t of None \<Rightarrow> JNull | Some j \<Rightarrow> j) (map Some ts) = ts"
  by (induction ts) auto

lemma Internalize_props_members:
  "(\<And>m. m \<in> set ms \<Longrightarrow> InternalizeJSONProperty reg (a m) = Inr (b m) \<and> b m \<noteq> VUndefined) \<Longrightarrow>
   Internalize_props reg (map (\<lambda>m. (KStr (fst m), a m)) ms) = Inr (map (\<lambda>m. (KStr (fst m), b m)) ms)"
  by (induction ms) simp_all

lemma reviver_leaf:
  "reviver reg VNull = Inr VNull"
  "reviver reg (VBool b) = Inr (VBool b)"
  "reviver reg (VNum n) = Inr (VNum n)"
  "reviver reg (VStr s) = Inr (VStr s)"
  by (simp_all add: reviver_not_object typechk_defs)

lemma stable_decode_encode:
  "stable_text rt reg t \<Longrightarrow>
   \<exists>v. InternalizeJSONProperty reg (JSON_value t) = Inr v \<and> v \<noteq> VUndefined
     \<and> (\<forall>d. text_depth t \<le> d \<longrightarrow> SerializeJSONProperty d rt reg v = Inr (Some t))"
proof (induction t)
  case (JArr ts)
  have "\<forall>t \<in> set ts. \<exists>v. InternalizeJSONProperty reg (JSON_value t) = Inr v \<and> v \<noteq> VUndefined
     \<and> (\<forall>d. text_depth t \<le> d \<longrightarrow> SerializeJSONProperty d rt reg v = Inr (Some t))"
    using JArr by (simp add: stable_texts_iff)
  then obtain fv where fv: "\<And>t. t \<in> set ts \<Longrightarrow>
      InternalizeJSONProperty reg (JSON_value t) = Inr (fv t) \<and> fv t \<noteq> VUndefined
     \<and> (\<forall>d. text_depth t \<le> d \<longrightarrow> SerializeJSONProperty d rt reg (fv t) = Inr (Some t))"
    by metis
  have "Internalize_elements reg (map JSON_value ts) = Inr (map fv ts)"
    by (rule Internalize_elements_map) (simp add: fv)
  then have dec: "InternalizeJSONProperty reg (JSON_value (JArr ts)) = Inr (VArr (map fv ts) [])"
    by (simp add: JSON_values_map reviver_array)
  have "SerializeJSONProperty d rt reg (VArr (map fv ts) []) = Inr (Some (JArr ts))"
    if d: "text_depth (JArr ts) \<le> d" for d
  proof -
    from d obtain d' where d': "d = Suc d'" "text_depth_list ts \<le> d'"
      by (cases d) auto
    have "traverse (SerializeJSONProperty d' rt reg) (map fv ts) = Inr (map Some ts)"
    proof (rule traverse_map_image)
      fix t assume t: "t \<in> set ts"
      then have "text_depth t \<le> d'"
        using text_depth_list_le [OF t] d'(2) by simp
      then show "SerializeJSONProperty d' rt reg (fv t) = Inr (Some t)"
        using fv [OF t] by simp
    qed
    then show ?thesis
      by (simp add: d'(1) serialize_plain_array SerializeJSONArray_def comp_def
          del: SerializeJSONProperty.simps)
  qed
  with dec show ?case by blast
next
  case (JObj ms)
  have keys: "keys_in_order (map fst ms)"
    and stable: "\<forall>m \<in> set ms. stable_text rt reg (snd m)"
    using JObj.prems by (simp_all add: stable_members_iff)
  have "\<forall>m \<in> set ms. \<exists>v. InternalizeJSONProperty reg (JSON_value (snd m)) = Inr v \<and> v \<noteq> VUndefined
     \<and> (\<forall>d. text_depth (snd m) \<le> d \<longrightarrow> SerializeJSONProperty d rt reg v = Inr (Some (snd m)))"
  proof
    fix m assume m: "m \<in> set ms"
    have "snd m \<in> Basic_BNFs.snds m" by (cases m) simp
    then show "\<exists>v. InternalizeJSONProperty reg (JSON_value (snd m)) = Inr v \<and> v \<noteq> VUndefined
     \<and> (\<forall>d. text_depth (snd m) \<le> d \<longrightarrow> SerializeJSONProperty d rt reg v = Inr (Some (snd m)))"
      using JObj.IH [OF m, of "snd m"] stable m by simp
  qed
  then obtain fm where fm: "\<And>m. m \<in> set ms \<Longrightarrow>
      InternalizeJSONProperty reg (JSON_value (snd m)) = Inr (fm m) \<and> fm m \<noteq> VUndefined
     \<and> (\<forall>d. text_depth (snd m) \<le> d \<longrightarrow> SerializeJSONProperty d rt reg (fm m) = Inr (Some (snd m)))"
    by metis
  define ps where "ps = map (\<lambda>m. (KStr (fst m), fm m)) ms"
  have revived: "members_revived reg ms = Inr ps"
    unfolding members_revived_def ps_def
  proof (rule traverse_map)
    fix m assume "m \<in> set ms"
    from fm [OF this]
    show "(case m of (k, t) \<Rightarrow> case Unpickle reg t of Inl e \<Rightarrow> Inl e | Inr v \<Rightarrow> Inr (KStr k, v))
        = Inr (KStr (fst m), fm m)"
      by (cases m) (simp add: Unpickle_def)
  qed
  have parsed: "JSON_value (JObj ms) = VObj (map (\<lambda>m. (KStr (fst m), JSON_value (snd m))) ms)"
    using build_in_order [of "JSON_members ms"] keys
    by (simp add: JSON_members_map comp_def case_prod_unfold)
  have "Internalize_props reg (map (\<lambda>m. (KStr (fst m), JSON_value (snd m))) ms) = Inr ps"
    unfolding ps_def by (rule Internalize_props_members) (simp add: fm)
  then have dec: "InternalizeJSONProperty reg (JSON_value (JObj ms)) = reviver reg (VObj ps)"
    by (simp add: parsed del: JSON_value.simps)
  from JObj.prems revived have "node_stable rt reg (VObj ps)"
    by simp
  then obtain r val where r: "reviver reg (VObj ps) = Inr r" "apply_toJSON rt r = Inr val"
      "replacer rt reg r val = Inr (VObj ps)"
    by (auto simp: node_stable_def split: sum.splits)
  have defined: "r \<noteq> VUndefined"
    using reviver_defined [OF r(1)] by simp
  have "SerializeJSONProperty d rt reg r = Inr (Some (JObj ms))"
    if d: "text_depth (JObj ms) \<le> d" for d
  proof -
    from d obtain d' where d': "d = Suc d'" "text_depth_members ms \<le> d'"
      by (cases d) auto
    have "traverse (\<lambda>(k, v). case SerializeJSONProperty d' rt reg v of Inl e \<Rightarrow> Inl e | Inr t \<Rightarrow> Inr (k, t))
        (map (\<lambda>m. (fst m, fm m)) ms) = Inr (map (\<lambda>m. (fst m, Some (snd m))) ms)"
    proof (rule traverse_map_image)
      fix m assume m: "m \<in> set ms"
      then have "text_depth (snd m) \<le> d'"
        using text_depth_members_le [OF m] d'(2) by simp
      then have "SerializeJSONProperty d' rt reg (fm m) = Inr (Some (snd m))"
        using fm [OF m] by simp
      then show "(case (fst m, fm m) of (k, v) \<Rightarrow>
           case SerializeJSONProperty d' rt reg v of Inl e \<Rightarrow> Inl e | Inr t \<Rightarrow> Inr (k, t))
          = Inr (fst m, Some (snd m))"
        by simp
    qed
    moreover have "string_props ps = map (\<lambda>m. (fst m, fm m)) ms"
      unfolding ps_def by (induction ms) (auto simp: string_props_def)
    moreover have "concat (map (\<lambda>(k, t). case t of None \<Rightarrow> [] | Some j \<Rightarrow> [(k, j)])
        (map (\<lambda>m. (fst m, Some (snd m))) ms)) = ms"
      by (induction ms) auto
    ultimately have "SerializeJSONObject (SerializeJSONProperty d' rt reg) ps = Inr (Some (JObj ms))"
      by (simp add: SerializeJSONObject_def del: SerializeJSONProperty.simps)
    then show ?thesis
      using r(2,3) by (simp add: d'(1))
  qed
  with dec r(1) defined show ?case by simp
next
  case JNull
  then show ?case
    by (auto simp: reviver_leaf serialize_leaf Suc_le_eq gr0_conv_Suc simp del: SerializeJSONProperty.simps)
next
  case (JBool b)
  then show ?case
    by (auto simp: reviver_leaf serialize_leaf Suc_le_eq gr0_conv_Suc simp del: SerializeJSONProperty.simps)
next
  case (JNum i)
  then show ?case
    by (auto simp: reviver_leaf serialize_leaf Suc_le_eq gr0_conv_Suc simp del: SerializeJSONProperty.simps)
next
  case (JStr s)
  then show ?case
    by (auto simp: reviver_leaf serialize_string Suc_le_eq gr0_conv_Suc simp del: SerializeJSONProperty.simps)
qed

lemma serialize_depth:
  "SerializeJSONProperty d rt reg v = Inr (Some t) \<Longrightarrow> text_depth t \<le> d"
proof (induction d arbitrary: v t)
  case 0
  then show ?case by simp
next
  case (Suc d)
  let ?ser = "SerializeJSONProperty d rt reg"
  from Suc.prems obtain val val' where val: "serialize_value ?ser val' = Inr (Some t)"
    by (auto split: sum.splits)
  have none: "d \<noteq> 0" if "?ser x = Inr y" for x y
    using that by (cases d) auto
  have arr: "text_depth t \<le> Suc d" if "SerializeJSONArray ?ser xs = Inr (Some t)" for xs
  proof -
    from that obtain ys where ys: "traverse ?ser xs = Inr ys"
        "t = JArr (map (\<lambda>t. case t of None \<Rightarrow> JNull | Some j \<Rightarrow> j) ys)"
      by (auto simp: SerializeJSONArray_def split: sum.splits)
    have "text_depth (case y of None \<Rightarrow> JNull | Some j \<Rightarrow> j) \<le> d" if y: "y \<in> set ys" for y
    proof -
      from traverse_member [OF ys(1) y] obtain x where x: "?ser x = Inr y" by blast
      show ?thesis
        using Suc.IH [of x] x none [OF x] by (cases y) auto
    qed
    then have "text_depth_list (map (\<lambda>t. case t of None \<Rightarrow> JNull | Some j \<Rightarrow> j) ys) \<le> d"
      by (intro text_depth_list_bound) auto
    then show ?thesis by (simp add: ys(2))
  qed
  have obj: "text_depth t \<le> Suc d" if "SerializeJSONObject ?ser ps = Inr (Some t)" for ps
  proof -
    from that obtain ys where ys:
        "traverse (\<lambda>(k, v). case ?ser v of Inl e \<Rightarrow> Inl e | Inr t \<Rightarrow> Inr (k, t)) (string_props ps) = Inr ys"
        "t = JObj (concat (map (\<lambda>(k, t). case t of None \<Rightarrow> [] | Some j \<Rightarrow> [(k, j)]) ys))"
      by (auto simp: SerializeJSONObject_def split: sum.splits)
    have "text_depth (snd m) \<le> d"
      if m: "m \<in> set (concat (map (\<lambda>(k, t). case t of None \<Rightarrow> [] | Some j \<Rightarrow> [(k, j)]) ys))" for m
    proof -
      from m obtain k where k: "(k, Some (snd m)) \<in> set ys"
        by (auto split: option.splits)
      from traverse_member [OF ys(1) k] obtain x where "?ser x = Inr (Some (snd m))"
        by (auto split: sum.splits)
      then show ?thesis by (rule Suc.IH)
    qed
    then have "text_depth_members (concat (map (\<lambda>(k, t). case t of None \<Rightarrow> [] | Some j \<Rightarrow> [(k, j)]) ys)) \<le> d"
      by (intro text_depth_members_bound) auto
    then show ?thesis by (simp add: ys(2))
  qed
  show ?case
  proof (cases val')
    case (VNum n)
    with val show ?thesis by (cases n) auto
  qed (use val arr obj in auto)
qed

text \<open>
  Where decoding and encoding agree: at an object that the reviver leaves as it is; at a
  Set record whose payload holds no member twice; at a Date record whose string is the ISO
  string of the Date it parses to.
\<close>

lemma node_stable_plain:
  assumes "reviver reg (VObj ps) = Inr (VObj ps)" "string_keyed ps"
    "\<not> hasFieldType (VObj ps) (KStr ''toJSON'') isFunction"
  shows "node_stable rt reg (VObj ps)"
  using assms
  by (auto simp: node_stable_def apply_toJSON_def replacer_def getPickler_plain_object typechk_defs
      split: option.splits)

lemma node_stable_Set:
  assumes "built_ins_registered rt reg" "all_simple xs"
  shows "node_stable rt reg (MakeFlat ''freik.Set'' (VArr xs [])) = (new_Set xs = VSet xs [])"
  using assms
  by (auto simp: node_stable_def unpickle_eval built_in_tags SetUnpickle_def new_Set_def
      SetPickle_def)

lemma node_stable_Date:
  assumes "built_ins_registered rt reg"
  shows "node_stable rt reg (MakeFlat ''freik.Date'' (VStr s))
     = (\<exists>ms. Date_parse rt s = Some ms \<and> toISOString rt ms = s)"
  using assms
  by (cases "Date_parse rt s")
     (auto simp: node_stable_def unpickle_eval built_in_tags DateUnpickle_def new_Date_def
       DatePickle_def)

text \<open>
  Claim C7, amended. \<open>Pickle(Unpickle(Pickle(v)))\<close> is the text \<open>Pickle(v)\<close> for every value
  \<open>v\<close> whose text is one in which decoding and encoding agree at every object: where the
  reviver makes a value of a flattened record, the replacer makes that record of the value
  again. This is so at every plain object, at every record whose tag has no decoder or
  whose decoder returns \<open>undefined\<close>, and at every record whose decoder and encoder are
  inverse to each other on it; it is not so where a Set or Map payload loses members when
  the Set or Map is built. In particular re-pickling is stable on every faithful value.
\<close>

theorem repickle_stable:
  "(Pickle depth rt reg v = Inr (Some text) \<and> stable_text rt reg text
      \<longrightarrow> Pickle_Unpickle_Pickle depth rt reg v = Pickle depth rt reg v)
   \<and> (built_ins_registered rt reg \<and> faithful rt v \<and> stack_need v \<le> depth
      \<longrightarrow> (\<exists>text. Pickle depth rt reg v = Inr (Some text))
        \<and> Pickle_Unpickle_Pickle depth rt reg v = Pickle depth rt reg v)"
proof (intro conjI impI)
  assume a: "Pickle depth rt reg v = Inr (Some text) \<and> stable_text rt reg text"
  then obtain v' where
    v': "InternalizeJSONProperty reg (JSON_value text) = Inr v'"
      "\<forall>d. text_depth text \<le> d \<longrightarrow> SerializeJSONProperty d rt reg v' = Inr (Some text)"
    using stable_decode_encode [of rt reg "text"] by blast
  have "text_depth text \<le> depth"
    using a serialize_depth [of depth rt reg v "text"] by (simp add: Pickle_def)
  with v' a show "Pickle_Unpickle_Pickle depth rt reg v = Pickle depth rt reg v"
    by (simp add: Pickle_Unpickle_Pickle_def Unpickle_Pickle_def Unpickle_def Pickle_def)
next
  assume a: "built_ins_registered rt reg \<and> faithful rt v \<and> stack_need v \<le> depth"
  then show "\<exists>text. Pickle depth rt reg v = Inr (Some text)"
    by (simp add: Pickle_faithful)
next
  assume a: "built_ins_registered rt reg \<and> faithful rt v \<and> stack_need v \<le> depth"
  then show "Pickle_Unpickle_Pickle depth rt reg v = Pickle depth rt reg v"
    by (simp add: Pickle_Unpickle_Pickle_def Unpickle_Pickle_def Pickle_faithful Unpickle_encoding)
qed

lemmas stable_eval =
  members_revived_def node_stable_def Unpickle_def

lemmas test_eval =
  test_registry_def RegisterForPickling_def setPickleHandler_def setUnpickleHandler_def
  TestSymbol_def Test2Symbol_def Test3Symbol_def MakeType_def MakeType2_def MakeType3_def
  Type3Unpickle_def toJSON_pickler_def

lemma dec_int_1: "dec_int 1 = ''1''"
  by (simp add: dec_int_def dec_nat.simps digit_char_def)

lemma BigInt_1: "StringToBigInt ''1'' = Some 1"
  using StringToBigInt_dec_int [of 1] by (simp add: dec_int_1)

theorem repickle_stable_witness:
  "Pickle_Unpickle_Pickle 2 example_runtime example_registry (VObj [(KStr ''a'', VUndefined)])
     = Pickle 2 example_runtime example_registry (VObj [(KStr ''a'', VUndefined)])
   \<and> Pickle_Unpickle_Pickle 1 example_runtime example_registry (VNum NaN)
     = Pickle 1 example_runtime example_registry (VNum NaN)
   \<and> Pickle_Unpickle_Pickle 2 example_runtime example_registry (VArr [VUndefined, VFun VNull []] [])
     = Pickle 2 example_runtime example_registry (VArr [VUndefined, VFun VNull []] [])
   \<and> Pickle_Unpickle_Pickle 4 example_runtime example_registry (VSet [VBigInt 1] [])
     = Pickle 4 example_runtime example_registry (VSet [VBigInt 1] [])
   \<and> Pickle_Unpickle_Pickle 2 example_runtime example_registry (VDate None [])
     = Pickle 2 example_runtime example_registry (VDate None [])
   \<and> Pickle_Unpickle_Pickle 3 example_runtime test_registry
       (VObj [(KStr ''a'', MakeType), (KStr ''b'', MakeType2)])
     = Pickle 3 example_runtime test_registry (VObj [(KStr ''a'', MakeType), (KStr ''b'', MakeType2)])
   \<and> Pickle_Unpickle_Pickle 4 example_runtime example_registry
       (VArr [VSet [VStr ''a'', VStr ''b''] []] [])
     = Pickle 4 example_runtime example_registry (VArr [VSet [VStr ''a'', VStr ''b''] []] [])"
proof -
  have a: "Pickle_Unpickle_Pickle 2 example_runtime example_registry (VObj [(KStr ''a'', VUndefined)])
     = Pickle 2 example_runtime example_registry (VObj [(KStr ''a'', VUndefined)])"
    using repickle_stable [of 2 example_runtime example_registry
        "VObj [(KStr ''a'', VUndefined)]" "JObj []"]
    by (simp add: pickle_eval stable_eval parse_eval value_eval)
  have b: "Pickle_Unpickle_Pickle 1 example_runtime example_registry (VNum NaN)
     = Pickle 1 example_runtime example_registry (VNum NaN)"
    using repickle_stable [of 1 example_runtime example_registry "VNum NaN" JNull]
    by (simp add: pickle_eval)
  have c: "Pickle_Unpickle_Pickle 2 example_runtime example_registry
       (VArr [VUndefined, VFun VNull []] [])
     = Pickle 2 example_runtime example_registry (VArr [VUndefined, VFun VNull []] [])"
    using repickle_stable [of 2 example_runtime example_registry
        "VArr [VUndefined, VFun VNull []] []" "JArr [JNull, JNull]"]
    by (simp add: pickle_eval)
  have d: "Pickle_Unpickle_Pickle 4 example_runtime example_registry (VSet [VBigInt 1] [])
     = Pickle 4 example_runtime example_registry (VSet [VBigInt 1] [])"
    using repickle_stable [of 4 example_runtime example_registry "VSet [VBigInt 1] []"
        "JObj [(''@dataType'', JStr ''freik.Set''),
               (''@dataValue'', JArr [JObj [(''@dataType'', JStr ''freik.BigInt''),
                                            (''@dataValue'', JStr ''1'')]])]"]
    by (simp add: pickle_eval stable_eval parse_eval value_eval dec_int_1 BigInt_1
        BigIntUnpickle_def)
  have e: "Pickle_Unpickle_Pickle 2 example_runtime example_registry (VDate None [])
     = Pickle 2 example_runtime example_registry (VDate None [])"
    using repickle_stable [of 2 example_runtime example_registry "VDate None []"
        "JObj [(''@dataType'', JStr ''freik.Date''), (''@dataValue'', JNull)]"]
    by (simp add: pickle_eval stable_eval parse_eval value_eval DateUnpickle_def)
  have f: "Pickle_Unpickle_Pickle 3 example_runtime test_registry
       (VObj [(KStr ''a'', MakeType), (KStr ''b'', MakeType2)])
     = Pickle 3 example_runtime test_registry (VObj [(KStr ''a'', MakeType), (KStr ''b'', MakeType2)])"
    using repickle_stable [of 3 example_runtime test_registry
        "VObj [(KStr ''a'', MakeType), (KStr ''b'', MakeType2)]"
        "JObj [(''a'', JObj [(''@dataType'', JStr ''pickler.Test''),
                             (''@dataValue'', JStr ''My Test Thingy'')]),
               (''b'', JObj [(''@dataType'', JStr ''pickler.Test2''),
                             (''@dataValue'', JStr ''My Test2 Thingy'')])]"]
    by (simp add: pickle_eval stable_eval parse_eval value_eval test_eval)
  have g: "Pickle_Unpickle_Pickle 4 example_runtime example_registry
       (VArr [VSet [VStr ''a'', VStr ''b''] []] [])
     = Pickle 4 example_runtime example_registry (VArr [VSet [VStr ''a'', VStr ''b''] []] [])"
    using repickle_stable [of 4 example_runtime example_registry
        "VArr [VSet [VStr ''a'', VStr ''b''] []] []"]
    by (simp add: value_eval built_ins_example)
  from a b c d e f g show ?thesis by simp
qed

section \<open>The checked decode\<close>

text \<open>
  Claim C8, as the specification states it: a check that accepts \<open>v\<close> gets a value equal to
  \<open>v\<close> back from \<open>SafelyUnpickle(Pickle(v), check)\<close>. The Set holding \<open>undefined\<close> is a Set,
  and what comes back under the check \<open>isSet\<close> is the Set holding \<open>null\<close>.
\<close>

theorem SafelyUnpickle_checks_counterexample:
  "Pickle 3 example_runtime example_registry (VSet [VUndefined] [])
     = Inr (Some (JObj [(''@dataType'', JStr ''freik.Set''), (''@dataValue'', JArr [JNull])]))
   \<and> pure_check isSet (VSet [VUndefined] []) = Inr (True, VSet [VUndefined] [])
   \<and> SafelyUnpickle example_registry
       (JObj [(''@dataType'', JStr ''freik.Set''), (''@dataValue'', JArr [JNull])])
       (pure_check isSet)
     = Inr (VSet [VNull] [])
   \<and> VSet [VNull] [] \<noteq> VSet [VUndefined] []"
  by (simp add: pickle_eval SafelyUnpickle_def UnsafelyUnpickle_def Unpickle_def parse_eval
      value_eval pure_check_def)

text \<open>
  Claim C8, amended. \<open>SafelyUnpickle\<close> decodes as \<open>Unpickle\<close> does and then asks the caller's
  check: it returns the decoded value, as the check leaves it, when the check accepts it,
  and \<open>undefined\<close>, without an error, when the check rejects it. So
  \<open>SafelyUnpickle(Pickle(v), check)\<close> is what the check makes of \<open>Unpickle(Pickle(v))\<close>, and
  for a faithful value \<open>v\<close> what the check makes of \<open>v\<close> itself: \<open>v\<close> under a check that
  accepts \<open>v\<close>, \<open>undefined\<close> under a check that rejects it.
\<close>

theorem SafelyUnpickle_checks:
  "(Unpickle reg input = Inr res \<and> check res = Inr (ok, res')
      \<longrightarrow> SafelyUnpickle reg input check = Inr (if ok then res' else VUndefined))
   \<and> (Unpickle_Pickle depth rt reg v = Inr u \<and> check u = Inr (ok, u')
      \<longrightarrow> (\<exists>text'. Pickle depth rt reg v = Inr (Some text')
            \<and> SafelyUnpickle reg text' check = Inr (if ok then u' else VUndefined)))
   \<and> (built_ins_registered rt reg \<and> faithful rt v \<and> stack_need v \<le> depth
        \<and> check v = Inr (ok, v')
      \<longrightarrow> (\<exists>text'. Pickle depth rt reg v = Inr (Some text')
            \<and> SafelyUnpickle reg text' check = Inr (if ok then v' else VUndefined)))"
proof (intro conjI impI)
  assume "Unpickle reg input = Inr res \<and> check res = Inr (ok, res')"
  then show "SafelyUnpickle reg input check = Inr (if ok then res' else VUndefined)"
    by (simp add: SafelyUnpickle_def UnsafelyUnpickle_def)
next
  assume a: "Unpickle_Pickle depth rt reg v = Inr u \<and> check u = Inr (ok, u')"
  then obtain text' where "Pickle depth rt reg v = Inr (Some text')" "Unpickle reg text' = Inr u"
    by (auto simp: Unpickle_Pickle_def split: sum.splits option.splits)
  with a show "\<exists>text'. Pickle depth rt reg v = Inr (Some text')
      \<and> SafelyUnpickle reg text' check = Inr (if ok then u' else VUndefined)"
    by (simp add: SafelyUnpickle_def UnsafelyUnpickle_def)
next
  assume a: "built_ins_registered rt reg \<and> faithful rt v \<and> stack_need v \<le> depth
      \<and> check v = Inr (ok, v')"
  then have "Pickle depth rt reg v = Inr (Some (encoding rt v))"
    "Unpickle reg (encoding rt v) = Inr v"
    by (simp_all add: Pickle_faithful Unpickle_encoding)
  with a show "\<exists>text'. Pickle depth rt reg v = Inr (Some text')
      \<and> SafelyUnpickle reg text' check = Inr (if ok then v' else VUndefined)"
    by (simp add: SafelyUnpickle_def UnsafelyUnpickle_def)
qed

theorem SafelyUnpickle_checks_witness:
  "(\<exists>input. Pickle 8 example_runtime example_registry
         (VMap [(VStr ''a'', VSet [VDate (Some 0) [], VRegExp ''a'' ''i'' []] [])] [])
         = Inr (Some input)
       \<and> SafelyUnpickle example_registry input (pure_check isMap)
         = Inr (VMap [(VStr ''a'', VSet [VDate (Some 0) [], VRegExp ''a'' ''i'' []] [])] []))
   \<and> (\<exists>input. Pickle 8 example_runtime example_registry
         (VMap [(VStr ''a'', VSet [VDate (Some 0) [], VRegExp ''a'' ''i'' []] [])] [])
         = Inr (Some input)
       \<and> SafelyUnpickle example_registry input (pure_check isSet) = Inr VUndefined)
   \<and> (\<exists>input. Pickle 4 example_runtime example_registry
         (VObj [(KStr ''regex'', VRegExp ''a'' ''i'' []), (KStr ''date'', VDate (Some 0) []),
                (KStr ''bi'', VBigInt 12), (KStr ''none'', VNull)])
         = Inr (Some input)
       \<and> SafelyUnpickle example_registry input
           (\<lambda>val. case val of
                     VObj ps \<Rightarrow> Inr (True, VObj (filter (\<lambda>p. snd p \<noteq> VNull) ps))
                   | _ \<Rightarrow> Inr (False, val))
         = Inr (VObj [(KStr ''regex'', VRegExp ''a'' ''i'' []), (KStr ''date'', VDate (Some 0) []),
                      (KStr ''bi'', VBigInt 12)]))
   \<and> (\<exists>input. Pickle 3 example_runtime test_registry (MakeType3 ''hello'' ''world'')
         = Inr (Some input)
       \<and> SafelyUnpickle test_registry input (chkCustomType Test3Symbol)
         = Inr (MakeType3 ''hello'' ''world''))
   \<and> SafelyUnpickle example_registry
       (JObj [(''value'', JObj [(''@dataType'', JStr ''freik.Symbol''),
                                (''@dataValue'', JStr ''pickler.Test'')])])
       (pure_check isSet)
     = Inr VUndefined
   \<and> SafelyUnpickle example_registry
       (JObj [(''@dataType'', JStr ''freik.Map''),
              (''@dataValue'', JArr [JArr [JStr ''a'', JNum 1], JArr [JStr ''a'', JNum 2]])])
       (pure_check isMap)
     = Inr (VMap [(VStr ''a'', VNum (Finite 2))] [])"
proof -
  let ?dup = "JObj [(''@dataType'', JStr ''freik.Map''),
              (''@dataValue'', JArr [JArr [JStr ''a'', JNum 1], JArr [JStr ''a'', JNum 2]])]"
  let ?m = "VMap [(VStr ''a'', VSet [VDate (Some 0) [], VRegExp ''a'' ''i'' []] [])] []"
  let ?o = "VObj [(KStr ''regex'', VRegExp ''a'' ''i'' []), (KStr ''date'', VDate (Some 0) []),
                (KStr ''bi'', VBigInt 12), (KStr ''none'', VNull)]"
  let ?sp = "JObj [(''value'', JObj [(''@dataType'', JStr ''freik.Symbol''),
                                (''@dataValue'', JStr ''pickler.Test'')])]"
  have a: "\<exists>input. Pickle 8 example_runtime example_registry ?m = Inr (Some input)
       \<and> SafelyUnpickle example_registry input (pure_check isMap) = Inr ?m"
    using SafelyUnpickle_checks [where reg = example_registry and rt = example_runtime
        and depth = 8 and v = ?m and check = "pure_check isMap" and ok = True and v' = ?m]
    by (simp add: value_eval built_ins_example pure_check_def)
  have b: "\<exists>input. Pickle 8 example_runtime example_registry ?m = Inr (Some input)
       \<and> SafelyUnpickle example_registry input (pure_check isSet) = Inr VUndefined"
    using SafelyUnpickle_checks [where reg = example_registry and rt = example_runtime
        and depth = 8 and v = ?m and check = "pure_check isSet" and ok = False and v' = ?m]
    by (simp add: value_eval built_ins_example pure_check_def)
  have c: "\<exists>input. Pickle 4 example_runtime example_registry ?o = Inr (Some input)
       \<and> SafelyUnpickle example_registry input
           (\<lambda>val. case val of
                     VObj ps \<Rightarrow> Inr (True, VObj (filter (\<lambda>p. snd p \<noteq> VNull) ps))
                   | _ \<Rightarrow> Inr (False, val))
         = Inr (VObj [(KStr ''regex'', VRegExp ''a'' ''i'' []), (KStr ''date'', VDate (Some 0) []),
                      (KStr ''bi'', VBigInt 12)])"
    using SafelyUnpickle_checks [where reg = example_registry and rt = example_runtime
        and depth = 4 and v = ?o
        and check = "\<lambda>val. case val of
                     VObj ps \<Rightarrow> Inr (True, VObj (filter (\<lambda>p. snd p \<noteq> VNull) ps))
                   | _ \<Rightarrow> Inr (False, val)"
        and ok = True
        and v' = "VObj [(KStr ''regex'', VRegExp ''a'' ''i'' []), (KStr ''date'', VDate (Some 0) []),
                      (KStr ''bi'', VBigInt 12)]"]
    by (simp add: value_eval built_ins_example)
  have d: "\<exists>input. Pickle 3 example_runtime test_registry (MakeType3 ''hello'' ''world'')
         = Inr (Some input)
       \<and> SafelyUnpickle test_registry input (chkCustomType Test3Symbol)
         = Inr (MakeType3 ''hello'' ''world'')"
    using SafelyUnpickle_checks [where reg = test_registry and rt = example_runtime
        and depth = 3 and v = "MakeType3 ''hello'' ''world''"
        and u = "MakeType3 ''hello'' ''world''" and u' = "MakeType3 ''hello'' ''world''"
        and check = "chkCustomType Test3Symbol" and ok = True]
    by (simp add: Unpickle_Pickle_def pickle_eval Unpickle_def parse_eval value_eval test_eval
        chkCustomType_def isCustomType_def pure_check_def)
  have e: "SafelyUnpickle example_registry ?sp (pure_check isSet) = Inr VUndefined"
    using SafelyUnpickle_checks [where reg = example_registry and input = ?sp
        and res = "VObj [(KStr ''value'', VSymbol (GlobalSym ''pickler.Test''))]"
        and res' = "VObj [(KStr ''value'', VSymbol (GlobalSym ''pickler.Test''))]"
        and check = "pure_check isSet" and ok = False]
    by (simp add: Unpickle_def parse_eval value_eval pure_check_def SymbolUnpickle_def)
  have f: "SafelyUnpickle example_registry ?dup (pure_check isMap)
      = Inr (VMap [(VStr ''a'', VNum (Finite 2))] [])"
    using SafelyUnpickle_checks [where reg = example_registry and input = ?dup
        and res = "VMap [(VStr ''a'', VNum (Finite 2))] []"
        and res' = "VMap [(VStr ''a'', VNum (Finite 2))] []"
        and check = "pure_check isMap" and ok = True]
    by (simp add: Unpickle_def parse_eval value_eval pure_check_def)
  from a b c d e f show ?thesis by blast
qed

end
